theory Spec2Isabelle
  imports Main
begin

section \<open>SentryOS: the streaming relay endpoints and the instrumentation facade\<close>

text \<open>
  The server side of the repository is a handful of HTTP POST handlers that hand a prompt
  to an agent SDK, iterate the asynchronous sequence of messages it answers with, and
  either re-publish them as server-sent-event frames (the chat route and the Gong route)
  or collect them into one JSON document (the email-agent routes).

  What the handlers do not own is a parameter of the model: the messages the agent SDK
  yields and whether its iteration ends or raises, the moment at which the client hangs
  up, the clock, the outcome of the Gong fetch, the result of \<open>JSON.parse\<close> and the
  conversion of a string to a number.
  A character of a \<open>string\<close> stands for one code unit of the JavaScript string, and a
  JavaScript number is an \<open>int\<close>; no property below depends on either choice.
  Calls into the observability SDK (\<open>logger\<close>, \<open>trackMetric\<close>, \<open>addBreadcrumb\<close>,
  \<open>Sentry.captureException\<close>) return nothing and leave the handler's variables alone;
  they appear in the model only in the facade section, where they are the subject.
\<close>

subsection \<open>Exceptions and abrupt completion\<close>

datatype exn = TypeError | SyntaxError | UpstreamError

text \<open>
  A block of statements either runs to its end in a state, or throws in the state reached
  so far; a \<open>catch\<close> handler continues from that state.
\<close>

datatype 's completion = Normal 's | Throws exn 's

fun state_of :: "'s completion \<Rightarrow> 's" where
  "state_of (Normal s) = s"
| "state_of (Throws e s) = s"

fun thrown :: "'s completion \<Rightarrow> exn option" where
  "thrown (Normal s) = None"
| "thrown (Throws e s) = Some e"

fun and_then :: "'s completion \<Rightarrow> ('s \<Rightarrow> 's completion) \<Rightarrow> 's completion" where
  "and_then (Normal s) f = f s"
| "and_then (Throws e s) f = Throws e s"

subsection \<open>Frames and the stream controller\<close>

text \<open>
  Every \<open>controller.enqueue(encoder.encode(`data: ${JSON.stringify(obj)}\n\n`))\<close> writes one
  frame; the frame is kept as the object it serialises. \<open>DONE\<close> is the literal
  \<open>data: [DONE]\n\n\<close>.
\<close>

type_synonym number = int

datatype stream_event =
    TextDelta string
  | ToolStart string
  | ToolProgress string number
  | Done
  | Error string

datatype frame = Data stream_event | DONE

text \<open>
  The controller of a \<open>ReadableStream\<close>. \<open>hangup = Some k\<close> is a client that cancels the
  stream once \<open>k\<close> chunks have been written (\<open>Some 0\<close>: before the first one); \<open>None\<close>
  is a client that stays. By the Streams standard \<open>enqueue\<close> and \<open>close\<close> throw a
  \<open>TypeError\<close> unless the stream is still readable and \<open>close\<close> has not been called.
\<close>

record controller =
  chunks :: "frame list"
  hangup :: "nat option"
  close_requested :: bool

definition can_close_or_enqueue :: "controller \<Rightarrow> bool" where
  "can_close_or_enqueue c =
     (\<not> close_requested c \<and>
      (case hangup c of None \<Rightarrow> True | Some k \<Rightarrow> length (chunks c) < k))"

definition enqueue :: "frame \<Rightarrow> controller \<Rightarrow> controller completion" where
  "enqueue f c =
     (if can_close_or_enqueue c then Normal (c\<lparr>chunks := chunks c @ [f]\<rparr>)
      else Throws TypeError c)"

definition close :: "controller \<Rightarrow> controller completion" where
  "close c =
     (if can_close_or_enqueue c then Normal (c\<lparr>close_requested := True\<rparr>)
      else Throws TypeError c)"

definition new_stream :: "nat option \<Rightarrow> controller" where
  "new_stream h = \<lparr>chunks = [], hangup = h, close_requested = False\<rparr>"

subsection \<open>Messages of the agent SDK\<close>

text \<open>
  The handlers look at \<open>message.type\<close> and, per type, at \<open>event.type\<close>,
  \<open>event.delta?.type\<close>, \<open>message.message?.content\<close> (an array of blocks or not),
  \<open>block.type\<close>, \<open>tool_name\<close>, \<open>elapsed_time_seconds\<close> and \<open>subtype\<close>. Everything
  else a message carries is dropped unread.
\<close>

datatype delta = Text_delta string | Other_delta

datatype raw_event = Content_block_delta "delta option" | Other_event

datatype content_block = Tool_use string | Other_block

datatype sdk_message =
    Stream_event raw_event
  | Assistant_message "content_block list option"
  | Tool_progress string number
  | Result string
  | Other_message

text \<open>The iteration \<open>for await (const message of query(...))\<close> yields the messages and then
  ends, or raises after them.\<close>

datatype ending = Completes | Raises

type_synonym upstream = "sdk_message list \<times> ending"

subsection \<open>The chat route: the relay loop\<close>

record relay =
  controller :: controller
  tokensGenerated :: nat
  toolsUsed :: nat

definition send :: "frame \<Rightarrow> relay \<Rightarrow> relay completion" where
  "send f st =
     (case enqueue f (controller st) of
        Normal c \<Rightarrow> Normal (st\<lparr>controller := c\<rparr>)
      | Throws e c \<Rightarrow> Throws e (st\<lparr>controller := c\<rparr>))"

fun tool_blocks :: "content_block list \<Rightarrow> relay \<Rightarrow> relay completion" where
  "tool_blocks [] st = Normal st"
| "tool_blocks (Tool_use name # blocks) st =
     and_then (send (Data (ToolStart name)) (st\<lparr>toolsUsed := toolsUsed st + 1\<rparr>))
       (tool_blocks blocks)"
| "tool_blocks (Other_block # blocks) st = tool_blocks blocks st"

text \<open>The body of the loop. Its five \<open>if\<close>s test \<open>message.type\<close>, so at most one of the
  first four and the last two applies; the equations are in the order of the source.\<close>

fun on_message :: "sdk_message \<Rightarrow> relay \<Rightarrow> relay completion" where
  "on_message (Stream_event (Content_block_delta (Some (Text_delta text)))) st =
     send (Data (TextDelta text)) (st\<lparr>tokensGenerated := tokensGenerated st + 1\<rparr>)"
| "on_message (Stream_event event) st = Normal st"
| "on_message (Assistant_message (Some content)) st = tool_blocks content st"
| "on_message (Assistant_message None) st = Normal st"
| "on_message (Tool_progress tool_name elapsed_time_seconds) st =
     send (Data (ToolProgress tool_name elapsed_time_seconds)) st"
| "on_message (Result subtype) st =
     (if subtype = ''success'' then send (Data Done) st
      else send (Data (Error ''Query did not complete successfully'')) st)"
| "on_message Other_message st = Normal st"

fun for_await :: "sdk_message list \<Rightarrow> ending \<Rightarrow> relay \<Rightarrow> relay completion" where
  "for_await [] Completes st = Normal st"
| "for_await [] Raises st = Throws UpstreamError st"
| "for_await (message # rest) fin st = and_then (on_message message st) (for_await rest fin)"

text \<open>\<open>start(controller)\<close>: the \<open>try\<close> block runs the loop, writes the sentinel and closes;
  the \<open>catch\<close> block writes one error frame, unguarded, and closes.\<close>

definition chat_try :: "upstream \<Rightarrow> controller \<Rightarrow> relay completion" where
  "chat_try up c =
     and_then
       (and_then
          (for_await (fst up) (snd up) \<lparr>controller = c, tokensGenerated = 0, toolsUsed = 0\<rparr>)
          (send DONE))
       (\<lambda>st. case close (controller st) of
                Normal c' \<Rightarrow> Normal (st\<lparr>controller := c'\<rparr>)
              | Throws e c' \<Rightarrow> Throws e (st\<lparr>controller := c'\<rparr>))"

definition chat_start :: "upstream \<Rightarrow> controller \<Rightarrow> controller completion" where
  "chat_start up c =
     (case chat_try up c of
        Normal st \<Rightarrow> Normal (controller st)
      | Throws error st \<Rightarrow>
          and_then (enqueue (Data (Error ''Stream error occurred'')) (controller st)) close)"


subsection \<open>Request bodies\<close>

text \<open>
  \<open>await request.json()\<close> is any JSON value, or a \<open>SyntaxError\<close> when the body is not
  JSON (\<open>None\<close> below); the cast \<open>as { messages: MessageInput[] }\<close> checks nothing.
\<close>

datatype json =
    JNull
  | JBool bool
  | JNum number
  | JStr string
  | JArr "json list"
  | JObj "(string \<times> json) list"

fun after :: "exn + 'a \<Rightarrow> ('a \<Rightarrow> exn + 'b) \<Rightarrow> exn + 'b" where
  "after (Inl e) f = Inl e"
| "after (Inr x) f = f x"

fun collect :: "(exn + 'a) list \<Rightarrow> exn + 'a list" where
  "collect [] = Inr []"
| "collect (r # rs) = after r (\<lambda>x. after (collect rs) (\<lambda>xs. Inr (x # xs)))"

text \<open>
  Reading one of the properties \<open>messages\<close>, \<open>role\<close>, \<open>content\<close>: of \<open>null\<close> it throws,
  of an object it is the member of that name (the last one, as \<open>JSON.parse\<close> keeps it) or
  \<open>undefined\<close> (\<open>None\<close>), of any other value it is \<open>undefined\<close>.
\<close>

fun get_prop :: "json \<Rightarrow> string \<Rightarrow> exn + json option" where
  "get_prop JNull k = Inl TypeError"
| "get_prop (JObj members) k = Inr (map_of (rev members) k)"
| "get_prop v k = Inr None"

fun truthy :: "json option \<Rightarrow> bool" where
  "truthy None = False"
| "truthy (Some JNull) = False"
| "truthy (Some (JBool b)) = b"
| "truthy (Some (JNum n)) = (n \<noteq> 0)"
| "truthy (Some (JStr s)) = (s \<noteq> [])"
| "truthy (Some v) = True"

fun is_array :: "json option \<Rightarrow> bool" where
  "is_array (Some (JArr xs)) = True"
| "is_array v = False"

fun elements :: "json option \<Rightarrow> json list" where
  "elements (Some (JArr xs)) = xs"
| "elements v = []"

text \<open>\<open>messages.filter(m => m.role === 'user')\<close>: the callback runs on every element.\<close>

fun filter_user :: "json list \<Rightarrow> exn + json list" where
  "filter_user [] = Inr []"
| "filter_user (m # ms) =
     after (get_prop m ''role'') (\<lambda>role.
     after (filter_user ms) (\<lambda>users.
       Inr (if role = Some (JStr ''user'') then m # users else users)))"

datatype 'a verdict = Bad_request string | Proceed 'a

text \<open>
  The opening of the three chat handlers, down to the check of the last user message
  (\<open>.filter(...).pop()\<close> in two of them, \<open>userMessages[userMessages.length - 1]\<close> in the
  Gong route).
\<close>

definition last_user_message :: "json option \<Rightarrow> exn + (json list \<times> json) verdict" where
  "last_user_message request_json =
     (case request_json of
        None \<Rightarrow> Inl SyntaxError
      | Some body \<Rightarrow>
          after (get_prop body ''messages'') (\<lambda>messages.
            if \<not> truthy messages \<or> \<not> is_array messages
            then Inr (Bad_request ''Messages array is required'')
            else after (filter_user (elements messages)) (\<lambda>users.
              if users = [] then Inr (Bad_request ''No user message found'')
              else Inr (Proceed (elements messages, last users)))))"

subsection \<open>Building the prompt\<close>

fun digits :: "nat \<Rightarrow> string" where
  "digits n =
     (if n < 10 then [''0123456789'' ! n]
      else digits (n div 10) @ [''0123456789'' ! (n mod 10)])"

definition show_number :: "number \<Rightarrow> string" where
  "show_number n = (if n < 0 then ''-'' @ digits (nat (- n)) else digits (nat n))"

fun join_with :: "string \<Rightarrow> string list \<Rightarrow> string" where
  "join_with sep [] = []"
| "join_with sep [x] = x"
| "join_with sep (x # y # zs) = x @ sep @ join_with sep (y # zs)"

text \<open>
  A value inside a template literal. An array is its elements joined by commas, with
  \<open>null\<close> elements empty; an object is \<open>[object Object]\<close>, unless it has a member of its
  own called \<open>toString\<close>, which is not callable and leaves no way to a primitive.
\<close>

fun to_string :: "json \<Rightarrow> exn + string" where
  "to_string JNull = Inr ''null''"
| "to_string (JBool b) = Inr (if b then ''true'' else ''false'')"
| "to_string (JNum n) = Inr (show_number n)"
| "to_string (JStr s) = Inr s"
| "to_string (JArr xs) =
     after (collect (map (\<lambda>x. if x = JNull then Inr [] else to_string x) xs))
       (\<lambda>parts. Inr (join_with '','' parts))"
| "to_string (JObj members) =
     (if ''toString'' \<in> fst ` set members then Inl TypeError else Inr ''[object Object]'')"

fun interpolate :: "json option \<Rightarrow> exn + string" where
  "interpolate None = Inr ''undefined''"
| "interpolate (Some v) = to_string v"

text \<open>\<open>content.length\<close>, read for the log line: it throws when \<open>content\<close> is missing or
  \<open>null\<close>, and its value is not used.\<close>

fun content_length :: "json option \<Rightarrow> exn + unit" where
  "content_length None = Inl TypeError"
| "content_length (Some JNull) = Inl TypeError"
| "content_length (Some v) = Inr ()"

definition speaker_line :: "json \<Rightarrow> exn + string" where
  "speaker_line m =
     after (get_prop m ''role'') (\<lambda>role.
     after (get_prop m ''content'') (\<lambda>content.
     after (interpolate content) (\<lambda>text.
       Inr ((if role = Some (JStr ''user'') then ''User'' else ''Assistant'') @ '': '' @ text))))"

definition fullPrompt :: "string \<Rightarrow> json list \<Rightarrow> json \<Rightarrow> exn + string" where
  "fullPrompt system_prompt messages lastUserMessage =
     after (get_prop lastUserMessage ''content'') (\<lambda>content.
     after (content_length content) (\<lambda>userMessageLength.
     after (collect (map speaker_line (butlast messages))) (\<lambda>lines.
     after (interpolate content) (\<lambda>text.
       let conversationContext = join_with ''\<newline>\<newline>'' lines in
       Inr (if conversationContext \<noteq> []
            then system_prompt @ ''\<newline>\<newline>Previous conversation:\<newline>'' @ conversationContext
                 @ ''\<newline>\<newline>User: '' @ text
            else system_prompt @ ''\<newline>\<newline>User: '' @ text)))))"

definition prepare :: "string \<Rightarrow> json option \<Rightarrow> exn + string verdict" where
  "prepare system_prompt request_json =
     after (last_user_message request_json) (\<lambda>checked.
       case checked of
         Bad_request reason \<Rightarrow> Inr (Bad_request reason)
       | Proceed (messages, lastUserMessage) \<Rightarrow>
           after (fullPrompt system_prompt messages lastUserMessage) (\<lambda>prompt.
             Inr (Proceed prompt)))"

subsection \<open>Responses\<close>

datatype call = Query string | Fetch_gong_calls

datatype body = Json json | Event_stream "controller completion"

text \<open>What one request produced: the response and, for the routes that are asked how often
  they go upstream, the upstream calls made for it.\<close>

record response =
  status :: nat
  body :: body

record exchange = response +
  calls :: "call list"

definition error_json :: "string \<Rightarrow> body" where
  "error_json reason = Json (JObj [(''error'', JStr reason)])"

subsection \<open>The chat route\<close>

definition CHAT_SYSTEM_PROMPT :: string where
  "CHAT_SYSTEM_PROMPT =
     ''You are a helpful personal assistant designed to help with general research, questions, and tasks.\<newline>\<newline>''
     @ ''Your role is to:\<newline>''
     @ ''- Answer questions on any topic accurately and thoroughly\<newline>''
     @ ''- Help with research by searching the web for current information\<newline>''
     @ ''- Assist with writing, editing, and brainstorming\<newline>''
     @ ''- Provide explanations and summaries of complex topics\<newline>''
     @ ''- Help solve problems and think through decisions\<newline>\<newline>''
     @ ''Guidelines:\<newline>''
     @ ''- Be friendly, clear, and conversational\<newline>''
     @ ''- Use web search when you need current information, facts you're unsure about, or real-time data\<newline>''
     @ ''- Keep responses concise but complete - expand when the topic warrants depth\<newline>''
     @ ''- Use markdown formatting when it helps readability (bullet points, code blocks, etc.)\<newline>''
     @ ''- Be honest when you don't know something and offer to search for answers''"

definition chat_POST :: "json option \<Rightarrow> upstream \<Rightarrow> nat option \<Rightarrow> exchange" where
  "chat_POST request_json up client =
     (case prepare CHAT_SYSTEM_PROMPT request_json of
        Inl error \<Rightarrow>
          \<lparr>status = 500,
           body = error_json ''Failed to process chat request. Check server logs for details.'',
           calls = []\<rparr>
      | Inr (Bad_request reason) \<Rightarrow> \<lparr>status = 400, body = error_json reason, calls = []\<rparr>
      | Inr (Proceed prompt) \<Rightarrow>
          \<lparr>status = 200, body = Event_stream (chat_start up (new_stream client)),
           calls = [Query prompt]\<rparr>)"


subsection \<open>The email-agent chat route\<close>

definition EMAIL_SYSTEM_PROMPT :: string where
  "EMAIL_SYSTEM_PROMPT =
     ''You are an intelligent email assistant with access to Gmail through the Gmail MCP server.\<newline>\<newline>''
     @ ''You can help users:\<newline>''
     @ ''- Answer questions about their emails\<newline>''
     @ ''- Find specific emails or information\<newline>''
     @ ''- Extract to-dos and action items\<newline>''
     @ ''- Provide insights about inbox patterns\<newline>''
     @ ''- Manage email tasks (mark as read, archive, etc.)\<newline>\<newline>''
     @ ''Be conversational, helpful, and proactive. Use the Gmail tools to access real email data.\<newline>''
     @ ''When you extract to-dos or insights, return them in the response.''"

text \<open>The two variables the loop of this route updates: \<open>collected\<close> is its
  \<open>fullResponse\<close>, \<open>toolsCalled\<close> its \<open>toolsUsed\<close>.\<close>

record tally =
  collected :: string
  toolsCalled :: nat

fun count_blocks :: "content_block list \<Rightarrow> tally \<Rightarrow> tally" where
  "count_blocks [] acc = acc"
| "count_blocks (Tool_use name # blocks) acc =
     count_blocks blocks (acc\<lparr>toolsCalled := toolsCalled acc + 1\<rparr>)"
| "count_blocks (Other_block # blocks) acc = count_blocks blocks acc"

fun tally_message :: "sdk_message \<Rightarrow> tally \<Rightarrow> tally" where
  "tally_message (Stream_event (Content_block_delta (Some (Text_delta text)))) acc =
     acc\<lparr>collected := collected acc @ text\<rparr>"
| "tally_message (Assistant_message (Some content)) acc = count_blocks content acc"
| "tally_message message acc = acc"

fun tally_all :: "sdk_message list \<Rightarrow> tally \<Rightarrow> tally" where
  "tally_all [] acc = acc"
| "tally_all (message # rest) acc = tally_all rest (tally_message message acc)"

text \<open>\<open>now\<close> is \<open>new Date().toISOString()\<close> at the time of the answer.\<close>

definition email_chat_POST :: "json option \<Rightarrow> upstream \<Rightarrow> string \<Rightarrow> exchange" where
  "email_chat_POST request_json up now =
     (let failed = Json (JObj [(''error'', JStr ''Failed to process chat message''),
                     (''message'', JStr ''Sorry, I encountered an error. Please try again.'')])
      in case prepare EMAIL_SYSTEM_PROMPT request_json of
           Inl error \<Rightarrow> \<lparr>status = 500, body = failed, calls = []\<rparr>
         | Inr (Bad_request reason) \<Rightarrow> \<lparr>status = 400, body = error_json reason, calls = []\<rparr>
         | Inr (Proceed prompt) \<Rightarrow>
             (case snd up of
                Raises \<Rightarrow> \<lparr>status = 500, body = failed, calls = [Query prompt]\<rparr>
              | Completes \<Rightarrow>
                  (let acc = tally_all (fst up) \<lparr>collected = [], toolsCalled = 0\<rparr>
                   in \<lparr>status = 200,
                       body = Json (JObj [(''message'', JStr (collected acc)),
                                (''toolsUsed'', JNum (int (toolsCalled acc))),
                                (''timestamp'', JStr now)]),
                       calls = [Query prompt]\<rparr>)))"

subsection \<open>The analysis routes\<close>

text \<open>
  The two analysis handlers differ in the tool preset they name and in the wording of the
  system prompt, both of which only the SDK reads; one model stands for both.
\<close>

fun gather :: "sdk_message list \<Rightarrow> string \<Rightarrow> string" where
  "gather [] fullResponse = fullResponse"
| "gather (Stream_event (Content_block_delta (Some (Text_delta text))) # rest) fullResponse =
     gather rest (fullResponse @ text)"
| "gather (message # rest) fullResponse = gather rest fullResponse"

text \<open>The text before and after the first occurrence of a pattern.\<close>

fun split_at :: "string \<Rightarrow> string \<Rightarrow> (string \<times> string) option" where
  "split_at pat [] = (if pat = [] then Some ([], []) else None)"
| "split_at pat (c # cs) =
     (if take (length pat) (c # cs) = pat then Some ([], drop (length pat) (c # cs))
      else case split_at pat cs of
             None \<Rightarrow> None
           | Some (before, rest) \<Rightarrow> Some (c # before, rest))"

text \<open>
  \<open>text.match(/<opener>([\s\S]*?)\n```/)\<close>, group 1: the leftmost opener that is followed
  by a closing line, and the shortest text between the two. When the leftmost opener has no
  closing line after it, no later opener has one either.
\<close>

definition fenced :: "string \<Rightarrow> string \<Rightarrow> string option" where
  "fenced opener text =
     (case split_at opener text of
        None \<Rightarrow> None
      | Some (before, rest) \<Rightarrow>
          (case split_at ''\<newline>```'' rest of
             None \<Rightarrow> None
           | Some (inner, beyond) \<Rightarrow> Some inner))"

definition jsonMatch :: "string \<Rightarrow> string option" where
  "jsonMatch fullResponse =
     (case fenced ''```json\<newline>'' fullResponse of
        Some captured \<Rightarrow> Some captured
      | None \<Rightarrow> fenced ''```\<newline>'' fullResponse)"

definition jsonString :: "string \<Rightarrow> string" where
  "jsonString fullResponse =
     (case jsonMatch fullResponse of Some captured \<Rightarrow> captured | None \<Rightarrow> fullResponse)"

definition fallback :: "string \<Rightarrow> json" where
  "fallback fullResponse =
     JObj [(''summary'', JStr (take 500 fullResponse)),
           (''todos'', JArr [JObj [(''id'', JStr ''1''),
                                   (''text'', JStr ''Review email analysis results''),
                                   (''source'', JStr ''Email Agent''),
                                   (''priority'', JStr ''medium'')]]),
           (''insights'', JArr [JObj [(''type'', JStr ''info''),
                                      (''title'', JStr ''Analysis Complete''),
                                      (''description'', JStr ''Check the summary above for details'')]])]"

definition analysis_failed :: response where
  "analysis_failed =
     \<lparr>status = 500,
      body = Json (JObj [(''error'', JStr ''Failed to analyze inbox''),
               (''summary'', JStr (''An error occurred while analyzing your inbox. Please make sure ''
                  @ ''the Gmail MCP server is configured and you have granted permissions.'')),
               (''todos'', JArr []),
               (''insights'', JArr [])])\<rparr>"

text \<open>
  \<open>JSON_parse\<close> is \<open>JSON.parse\<close>, \<open>None\<close> where it throws. The parsed document is
  returned as it is; reading \<open>analysisResult.todos\<close> for the log line throws when the
  document is \<open>null\<close>, which the outer \<open>catch\<close> answers like an upstream failure.
\<close>

definition analysis_POST :: "(string \<Rightarrow> json option) \<Rightarrow> upstream \<Rightarrow> response" where
  "analysis_POST JSON_parse up =
     (case snd up of
        Raises \<Rightarrow> analysis_failed
      | Completes \<Rightarrow>
          (let fullResponse = gather (fst up) [];
               analysisResult = (case JSON_parse (jsonString fullResponse) of
                                   Some document \<Rightarrow> document
                                 | None \<Rightarrow> fallback fullResponse)
           in if analysisResult = JNull then analysis_failed
              else \<lparr>status = 200, body = Json analysisResult\<rparr>))"

subsection \<open>The Gong route\<close>

text \<open>
  The fetch of the Gong calls throws, or answers with a status that is not OK, or with a
  body that \<open>json()\<close> cannot read, or with a body that is some JSON value; the
  annotation \<open>GongCallsResponse\<close> checks nothing.
\<close>

datatype gong_fetch =
    Fetch_throws
  | Not_ok
  | Body_unreadable
  | Ok_json json

text \<open>\<open>toLowerCase\<close> on the letters A to Z; no other code unit becomes a letter of
  \<open>summary\<close>.\<close>

definition toLowerCase :: "string \<Rightarrow> string" where
  "toLowerCase s =
     map (\<lambda>c. case map_of (zip ''ABCDEFGHIJKLMNOPQRSTUVWXYZ'' ''abcdefghijklmnopqrstuvwxyz'') c of
                Some lower \<Rightarrow> lower
              | None \<Rightarrow> c) s"

definition string_includes :: "string \<Rightarrow> string \<Rightarrow> bool" where
  "string_includes text pat = (split_at pat text \<noteq> None)"

text \<open>
  \<open>calls.length\<close> of a value that is not \<open>null\<close>: the number of elements of an array,
  the number of code units of a string, the member \<open>length\<close> of an object, and
  \<open>undefined\<close> of a number or a boolean.
\<close>

fun length_of :: "json \<Rightarrow> json option" where
  "length_of (JArr xs) = Some (JNum (int (length xs)))"
| "length_of (JStr s) = Some (JNum (int (length s)))"
| "length_of (JObj members) = map_of (rev members) ''length''"
| "length_of v = None"

text \<open>
  \<open>x > 0\<close>. \<open>undefined\<close> and \<open>null\<close> are not greater than zero, \<open>true\<close> is; a string
  is converted to a number, and \<open>positive s\<close> says whether that number is greater than
  zero: the conversion belongs to the language and is a parameter. An array or an object
  is first converted to a string, as in a template literal.
\<close>

fun greater_than_zero :: "(string \<Rightarrow> bool) \<Rightarrow> json option \<Rightarrow> exn + bool" where
  "greater_than_zero positive None = Inr False"
| "greater_than_zero positive (Some JNull) = Inr False"
| "greater_than_zero positive (Some (JBool b)) = Inr b"
| "greater_than_zero positive (Some (JNum n)) = Inr (n > 0)"
| "greater_than_zero positive (Some (JStr s)) = Inr (positive s)"
| "greater_than_zero positive (Some v) = after (to_string v) (\<lambda>s. Inr (positive s))"

text \<open>\<open>value || fallback\<close> inside a template literal.\<close>

definition or_else :: "json option \<Rightarrow> string \<Rightarrow> exn + string" where
  "or_else v otherwise = (if truthy v then interpolate v else Inr otherwise)"

text \<open>The line the callback of \<open>forEach\<close> appends for one call.\<close>

definition call_line :: "nat \<times> json \<Rightarrow> exn + string" where
  "call_line entry =
     (case entry of (index, call) \<Rightarrow>
        after (get_prop call ''title'') (\<lambda>title.
        after (or_else title ''Untitled Call'') (\<lambda>shown_title.
        after (get_prop call ''duration'') (\<lambda>duration.
        after (or_else duration ''Unknown'') (\<lambda>shown_duration.
          Inr (digits (index + 1) @ ''. '' @ shown_title @ '' - Duration: '' @ shown_duration
               @ '' minutes\<newline>''))))))"

text \<open>\<open>calls.slice(0, 3).forEach(...)\<close>: only an array has both methods.\<close>

fun summary_lines :: "json \<Rightarrow> exn + string" where
  "summary_lines (JArr xs) =
     after (collect (map call_line (enumerate 0 (take 3 xs)))) (\<lambda>lines. Inr (concat lines))"
| "summary_lines v = Inl TypeError"

text \<open>\<open>content.toLowerCase()\<close>: only a string has the method.\<close>

fun lower_case_of :: "json option \<Rightarrow> exn + string" where
  "lower_case_of (Some (JStr s)) = Inr (toLowerCase s)"
| "lower_case_of v = Inl TypeError"

definition no_data :: string where
  "no_data =
     ''I'm ready to help you with Gong call analysis. However, I couldn't fetch your recent ''
     @ ''call data at the moment. You can ask me about call summaries, participant insights, ''
     @ ''or any other questions about your sales calls.''"

text \<open>
  The text of the answer. \<open>gongData\<close> is the body of an OK fetch, and \<open>hasGongData\<close>
  holds for no other outcome; \<open>content\<close> is \<open>latestUserMessage.content\<close>.
\<close>

definition with_gong_data ::
  "(string \<Rightarrow> bool) \<Rightarrow> json \<Rightarrow> json option \<Rightarrow> exn + string" where
  "with_gong_data positive gongData content =
     after (get_prop gongData ''calls'') (\<lambda>gong_calls.
       case gong_calls of
         None \<Rightarrow> Inr no_data
       | Some found \<Rightarrow>
           if \<not> truthy (Some found) then Inr no_data
           else after (greater_than_zero positive (length_of found)) (\<lambda>any.
             if \<not> any then Inr no_data
             else after (interpolate (length_of found)) (\<lambda>how_many.
                  after (lower_case_of content) (\<lambda>lowered.
                    if string_includes lowered ''summary''
                    then after (summary_lines found) (\<lambda>lines.
                           Inr (''Based on your recent Gong calls, I found '' @ how_many
                                @ '' calls from the past week. ''
                                @ ''Here's a summary of your recent activity:\<newline>\<newline>''
                                @ lines))
                    else Inr (''Based on your recent Gong calls, I found '' @ how_many
                              @ '' calls from the past week. ''
                              @ ''How can I help you analyze this data?'')))))"

definition responseContent ::
  "(string \<Rightarrow> bool) \<Rightarrow> gong_fetch \<Rightarrow> json option \<Rightarrow> exn + string" where
  "responseContent positive fetched content =
     (case fetched of
        Ok_json gongData \<Rightarrow> with_gong_data positive gongData content
      | _ \<Rightarrow> Inr no_data)"

definition gong_try ::
  "(string \<Rightarrow> bool) \<Rightarrow> gong_fetch \<Rightarrow> json option \<Rightarrow> controller \<Rightarrow> controller completion" where
  "gong_try positive fetched content c =
     (case responseContent positive fetched content of
        Inl error \<Rightarrow> Throws error c
      | Inr text \<Rightarrow>
          and_then
            (and_then
               (and_then (enqueue (Data (TextDelta text)) c) (enqueue (Data Done)))
               (enqueue DONE))
            close)"

text \<open>The \<open>catch\<close> block of this route writes its error frame inside a \<open>try\<close> of its own
  with an empty handler, and then closes.\<close>

definition gong_start ::
  "(string \<Rightarrow> bool) \<Rightarrow> gong_fetch \<Rightarrow> json option \<Rightarrow> controller \<Rightarrow> controller completion" where
  "gong_start positive fetched content c =
     (case gong_try positive fetched content c of
        Normal c' \<Rightarrow> Normal c'
      | Throws error c' \<Rightarrow>
          close (state_of (enqueue (Data (Error ''Stream error occurred'')) c')))"

definition gong_POST ::
  "(string \<Rightarrow> bool) \<Rightarrow> json option \<Rightarrow> gong_fetch \<Rightarrow> nat option \<Rightarrow> exchange" where
  "gong_POST positive request_json fetched client =
     (case after (last_user_message request_json) (\<lambda>checked.
             case checked of
               Bad_request reason \<Rightarrow> Inr (Bad_request reason)
             | Proceed (messages, latestUserMessage) \<Rightarrow>
                 after (get_prop latestUserMessage ''content'') (\<lambda>content.
                 after (content_length content) (\<lambda>userMessageLength.
                   Inr (Proceed content)))) of
        Inl error \<Rightarrow>
          \<lparr>status = 500, body = error_json ''Failed to process Gong agent request'', calls = []\<rparr>
      | Inr (Bad_request reason) \<Rightarrow> \<lparr>status = 400, body = error_json reason, calls = []\<rparr>
      | Inr (Proceed content) \<Rightarrow>
          \<lparr>status = 200,
           body = Event_stream (gong_start positive fetched content (new_stream client)),
           calls = [Fetch_gong_calls]\<rparr>)"

subsection \<open>The instrumentation facade\<close>

text \<open>
  The observability SDK is outside the repository. It is modelled as the test double the
  specification asks for: it records each call and returns. \<open>Sentry.startSpan(ctx, callback)\<close>
  runs the callback inside the span and hands back what the callback returns or throws.
  The wrapped function is any computation over the state of the program, of which the
  SDK's record is one part; it returns a value or throws one.
\<close>

record sentry =
  distributions :: "(string \<times> number \<times> string) list"
  spans :: "(string \<times> string) list"

type_synonym ('w, 'e, 'a) async = "'w \<times> sentry \<Rightarrow> ('e + 'a) \<times> 'w \<times> sentry"

definition Sentry_metrics_distribution :: "string \<Rightarrow> number \<Rightarrow> string \<Rightarrow> sentry \<Rightarrow> sentry" where
  "Sentry_metrics_distribution name v unit sdk =
     sdk\<lparr>distributions := distributions sdk @ [(name, v, unit)]\<rparr>"

definition Sentry_startSpan :: "string \<times> string \<Rightarrow> ('w, 'e, 'a) async \<Rightarrow> ('w, 'e, 'a) async" where
  "Sentry_startSpan ctx callback s =
     (case callback s of (outcome, w, sdk) \<Rightarrow> (outcome, w, sdk\<lparr>spans := spans sdk @ [ctx]\<rparr>))"

definition trackTiming :: "string \<Rightarrow> number \<Rightarrow> string \<Rightarrow> sentry \<Rightarrow> sentry" where
  "trackTiming name v unit sdk = Sentry_metrics_distribution name v unit sdk"

definition startSpan :: "string \<Rightarrow> ('w, 'e, 'a) async \<Rightarrow> string \<Rightarrow> ('w, 'e, 'a) async" where
  "startSpan name operation op = Sentry_startSpan (name, op) operation"

text \<open>\<open>startTime\<close> and \<open>endTime\<close> are the two readings of \<open>performance.now()\<close>.\<close>

definition measureTime ::
  "string \<Rightarrow> ('w, 'e, 'a) async \<Rightarrow> number \<Rightarrow> number \<Rightarrow> ('w, 'e, 'a) async" where
  "measureTime name fn startTime endTime s =
     (case fn s of
        (Inr result, w, sdk) \<Rightarrow>
          (Inr result, w, trackTiming (''function.'' @ name) (endTime - startTime) ''millisecond'' sdk)
      | (Inl error, w, sdk) \<Rightarrow>
          (Inl error, w,
           trackTiming (''function.'' @ name @ ''.error'') (endTime - startTime) ''millisecond'' sdk))"


section \<open>Notions the properties are stated with\<close>

subsection \<open>What a stream should carry\<close>

text \<open>The events one SDK message reports, in the order it holds them.\<close>

fun tool_starts :: "content_block list \<Rightarrow> stream_event list" where
  "tool_starts [] = []"
| "tool_starts (Tool_use name # blocks) = ToolStart name # tool_starts blocks"
| "tool_starts (Other_block # blocks) = tool_starts blocks"

fun reported :: "sdk_message \<Rightarrow> stream_event list" where
  "reported (Stream_event (Content_block_delta (Some (Text_delta text)))) = [TextDelta text]"
| "reported (Stream_event event) = []"
| "reported (Assistant_message (Some content)) = tool_starts content"
| "reported (Assistant_message None) = []"
| "reported (Tool_progress tool elapsed) = [ToolProgress tool elapsed]"
| "reported (Result subtype) =
     (if subtype = ''success'' then [Done] else [Error ''Query did not complete successfully''])"
| "reported Other_message = []"

definition relayed :: "sdk_message list \<Rightarrow> frame list" where
  "relayed msgs = map Data (concat (map reported msgs))"

text \<open>A scripted upstream in the vocabulary of the specification, and the SDK message
  that reports each of its events.\<close>

datatype upstream_event =
    Text string
  | Tool string
  | Progress string number

fun report :: "upstream_event \<Rightarrow> sdk_message" where
  "report (Text text) = Stream_event (Content_block_delta (Some (Text_delta text)))"
| "report (Tool name) = Assistant_message (Some [Tool_use name])"
| "report (Progress name elapsed) = Tool_progress name elapsed"

fun frame_of :: "upstream_event \<Rightarrow> frame" where
  "frame_of (Text text) = Data (TextDelta text)"
| "frame_of (Tool name) = Data (ToolStart name)"
| "frame_of (Progress name elapsed) = Data (ToolProgress name elapsed)"

fun is_terminal :: "frame \<Rightarrow> bool" where
  "is_terminal (Data Done) = True"
| "is_terminal (Data (Error reason)) = True"
| "is_terminal f = False"

fun is_result :: "sdk_message \<Rightarrow> bool" where
  "is_result (Result subtype) = True"
| "is_result message = False"

text \<open>Writing a list of frames one after the other, and the end of the iteration, seen
  from the controller alone.\<close>

fun write_all :: "frame list \<Rightarrow> controller \<Rightarrow> controller completion" where
  "write_all [] c = Normal c"
| "write_all (f # fs) c = and_then (enqueue f c) (write_all fs)"

fun finish :: "ending \<Rightarrow> controller \<Rightarrow> controller completion" where
  "finish Completes c = Normal c"
| "finish Raises c = Throws UpstreamError c"

fun ctl :: "relay completion \<Rightarrow> controller completion" where
  "ctl (Normal st) = Normal (controller st)"
| "ctl (Throws e st) = Throws e (controller st)"

definition terminal :: "ending \<Rightarrow> frame" where
  "terminal fin =
     (case fin of Completes \<Rightarrow> DONE | Raises \<Rightarrow> Data (Error ''Stream error occurred''))"


subsection \<open>Requests\<close>

text \<open>A request at its declared type: every element of \<open>messages\<close> is a turn with a role
  and a text.\<close>

datatype speaker = User | Assistant

datatype turn = Turn speaker string

fun by_user :: "turn \<Rightarrow> bool" where
  "by_user (Turn who text) = (who = User)"

fun json_of_turn :: "turn \<Rightarrow> json" where
  "json_of_turn (Turn who text) =
     JObj [(''role'', JStr (case who of User \<Rightarrow> ''user'' | Assistant \<Rightarrow> ''assistant'')),
           (''content'', JStr text)]"

definition request_of :: "turn list \<Rightarrow> json" where
  "request_of turns = JObj [(''messages'', JArr (map json_of_turn turns))]"

fun speaker_text :: "turn \<Rightarrow> string" where
  "speaker_text (Turn who text) =
     (case who of User \<Rightarrow> ''User'' | Assistant \<Rightarrow> ''Assistant'') @ '': '' @ text"

fun said :: "turn \<Rightarrow> string" where
  "said (Turn who text) = text"

definition typed_prompt :: "string \<Rightarrow> turn list \<Rightarrow> string" where
  "typed_prompt system_prompt turns =
     (let context = join_with ''\<newline>\<newline>'' (map speaker_text (butlast turns));
          question = said (last (filter by_user turns))
      in if context \<noteq> []
         then system_prompt @ ''\<newline>\<newline>Previous conversation:\<newline>'' @ context
              @ ''\<newline>\<newline>User: '' @ question
         else system_prompt @ ''\<newline>\<newline>User: '' @ question)"

text \<open>Any JSON body: its \<open>messages\<close> member, and whether an element is a user turn.\<close>

fun messages_field :: "json \<Rightarrow> json option" where
  "messages_field (JObj members) = map_of (rev members) ''messages''"
| "messages_field v = None"

definition is_user :: "json \<Rightarrow> bool" where
  "is_user m = (get_prop m ''role'' = Inr (Some (JStr ''user'')))"

fun is_error_shape :: "body \<Rightarrow> bool" where
  "is_error_shape (Json (JObj [(k, JStr reason)])) = (k = ''error'')"
| "is_error_shape b = False"

definition bad_request :: "string \<Rightarrow> exchange" where
  "bad_request reason = \<lparr>status = 400, body = error_json reason, calls = []\<rparr>"

text \<open>The answers of the outer \<open>catch\<close> blocks of the chat route and of the Gong route.\<close>

definition chat_failed :: exchange where
  "chat_failed =
     \<lparr>status = 500,
      body = error_json ''Failed to process chat request. Check server logs for details.'',
      calls = []\<rparr>"

definition gong_failed :: exchange where
  "gong_failed =
     \<lparr>status = 500, body = error_json ''Failed to process Gong agent request'', calls = []\<rparr>"


subsection \<open>Collected text and analysis documents\<close>

fun delta_text :: "sdk_message \<Rightarrow> string" where
  "delta_text (Stream_event (Content_block_delta (Some (Text_delta text)))) = text"
| "delta_text message = []"

definition text_of :: "sdk_message list \<Rightarrow> string" where
  "text_of msgs = concat (map delta_text msgs)"

fun is_tool_use :: "content_block \<Rightarrow> bool" where
  "is_tool_use (Tool_use name) = True"
| "is_tool_use Other_block = False"

fun tool_uses :: "sdk_message \<Rightarrow> nat" where
  "tool_uses (Assistant_message (Some content)) = length (filter is_tool_use content)"
| "tool_uses message = 0"

text \<open>
  The two regular expressions, by position. A pattern occurs at a position of a text;
  \<open>/<opener>([\s\S]*?)\n```/\<close> matches from the least position at which the opener
  occurs with a closing line somewhere behind it, and its group ends at the least
  position behind the opener at which the closing line occurs.
\<close>

definition occurs_at :: "string \<Rightarrow> string \<Rightarrow> nat \<Rightarrow> bool" where
  "occurs_at pat t i = (take (length pat) (drop i t) = pat)"

definition regex_group :: "string \<Rightarrow> string \<Rightarrow> string option" where
  "regex_group opener t =
     (case find (\<lambda>i. occurs_at opener t i
                     \<and> list_ex (occurs_at ''\<newline>```'' t) [i + length opener..<Suc (length t)])
             [0..<Suc (length t)] of
        None \<Rightarrow> None
      | Some i \<Rightarrow>
          (case find (occurs_at ''\<newline>```'' t) [i + length opener..<Suc (length t)] of
             None \<Rightarrow> None
           | Some j \<Rightarrow> Some (take (j - (i + length opener)) (drop (i + length opener) t))))"

text \<open>The text the extraction should hand to the parser, and the texts the claim names.\<close>

definition chosen_text :: "string \<Rightarrow> string" where
  "chosen_text t =
     (case regex_group ''```json\<newline>'' t of
        Some inner \<Rightarrow> inner
      | None \<Rightarrow> (case regex_group ''```\<newline>'' t of Some inner \<Rightarrow> inner | None \<Rightarrow> t))"

definition candidates :: "string \<Rightarrow> string list" where
  "candidates t =
     (case regex_group ''```json\<newline>'' t of Some inner \<Rightarrow> [inner] | None \<Rightarrow> [])
     @ (case regex_group ''```\<newline>'' t of Some inner \<Rightarrow> [inner] | None \<Rightarrow> [])
     @ [t]"


text \<open>An object with a \<open>summary\<close> string, a \<open>todos\<close> array and an \<open>insights\<close> array.\<close>

fun analysis_shape :: "json \<Rightarrow> bool" where
  "analysis_shape (JObj members) =
     (case (map_of (rev members) ''summary'', map_of (rev members) ''todos'',
            map_of (rev members) ''insights'') of
        (Some (JStr summary), Some (JArr todos), Some (JArr insights)) \<Rightarrow> True
      | other \<Rightarrow> False)"
| "analysis_shape v = False"

text \<open>
  For the examples, a parser that reads the five texts below as \<open>JSON.parse\<close> does and
  rejects every other text. It is used only on those five and on texts that
  \<open>JSON.parse\<close> rejects as well.
\<close>

definition parse_literal :: "string \<Rightarrow> json option" where
  "parse_literal text =
     (if text = ''{}'' then Some (JObj [])
      else if text = ''[]'' then Some (JArr [])
      else if text = ''null'' then Some JNull
      else if text = ''true'' then Some (JBool True)
      else if text = ''false'' then Some (JBool False)
      else None)"


subsection \<open>The answer of the Gong route at the declared type of the data\<close>

text \<open>
  A body of the type \<open>GongCallsResponse\<close>, as far as the handler reads it: an optional
  list of calls, each with an optional title and an optional duration; and the text the
  route owes for it.
\<close>

record gong_call =
  title :: "string option"
  duration :: "number option"







section \<open>Properties\<close>

subsection \<open>The relay loop, seen from the controller\<close>


lemma ctl_send: "ctl (send f st) = enqueue f (controller st)"
  by (simp add: send_def enqueue_def)

lemma ctl_and_then:
  assumes "\<And>s. ctl (f s) = g (controller s)"
  shows "ctl (and_then m f) = and_then (ctl m) g"
  using assms by (cases m) simp_all

lemma write_all_append: "write_all (xs @ ys) c = and_then (write_all xs c) (write_all ys)"
proof (induction xs arbitrary: c)
  case Nil
  show ?case by simp
next
  case (Cons x xs)
  show ?case by (cases "enqueue x c") (simp_all add: Cons.IH)
qed

lemma ctl_tool_blocks:
  "ctl (tool_blocks blocks st) = write_all (map Data (tool_starts blocks)) (controller st)"
proof (induction blocks arbitrary: st)
  case Nil
  show ?case by simp
next
  case (Cons b blocks)
  show ?case
  proof (cases b)
    case (Tool_use name)
    have "ctl (tool_blocks (b # blocks) st) =
          and_then (ctl (send (Data (ToolStart name)) (st\<lparr>toolsUsed := toolsUsed st + 1\<rparr>)))
            (write_all (map Data (tool_starts blocks)))"
      unfolding Tool_use tool_blocks.simps by (rule ctl_and_then) (rule Cons.IH)
    then show ?thesis by (simp add: Tool_use ctl_send)
  next
    case Other_block
    then show ?thesis by (simp add: Cons.IH)
  qed
qed

lemma write_one: "write_all [f] c = enqueue f c"
  by (cases "enqueue f c") simp_all

lemma ctl_on_message:
  "ctl (on_message message st) = write_all (map Data (reported message)) (controller st)"
  by (induction message st rule: on_message.induct)
     (simp_all add: ctl_send ctl_tool_blocks write_one del: write_all.simps(2))

lemma ctl_for_await:
  "ctl (for_await msgs fin st) =
     and_then (write_all (map Data (concat (map reported msgs))) (controller st)) (finish fin)"
proof (induction msgs arbitrary: st)
  case Nil
  show ?case by (cases fin) simp_all
next
  case (Cons m msgs)
  have "ctl (for_await (m # msgs) fin st) =
        and_then (ctl (on_message m st))
          (\<lambda>c. and_then (write_all (map Data (concat (map reported msgs))) c) (finish fin))"
    unfolding for_await.simps by (rule ctl_and_then) (rule Cons.IH)
  also have "\<dots> = and_then (write_all (map Data (concat (map reported (m # msgs)))) (controller st)) (finish fin)"
    by (cases "write_all (map Data (reported m)) (controller st)")
       (simp_all add: ctl_on_message write_all_append)
  finally show ?case .
qed

lemma write_all_fits:
  "\<not> close_requested c \<Longrightarrow>
   (case hangup c of None \<Rightarrow> True | Some k \<Rightarrow> length (chunks c) + length fs \<le> k) \<Longrightarrow>
   write_all fs c = Normal (c\<lparr>chunks := chunks c @ fs\<rparr>)"
proof (induction fs arbitrary: c)
  case Nil
  show ?case by simp
next
  case (Cons f fs)
  have e: "enqueue f c = Normal (c\<lparr>chunks := chunks c @ [f]\<rparr>)"
    using Cons.prems by (auto simp: enqueue_def can_close_or_enqueue_def split: option.splits)
  have "write_all fs (c\<lparr>chunks := chunks c @ [f]\<rparr>) =
        Normal (c\<lparr>chunks := chunks c @ [f]\<rparr>\<lparr>chunks := chunks (c\<lparr>chunks := chunks c @ [f]\<rparr>) @ fs\<rparr>)"
    by (rule Cons.IH) (use Cons.prems in \<open>auto split: option.splits\<close>)
  then show ?case by (simp add: e)
qed

lemma write_all_cut:
  "\<not> close_requested c \<Longrightarrow> hangup c = Some k \<Longrightarrow> length (chunks c) \<le> k \<Longrightarrow>
   k < length (chunks c) + length fs \<Longrightarrow>
   write_all fs c = Throws TypeError (c\<lparr>chunks := chunks c @ take (k - length (chunks c)) fs\<rparr>)"
proof (induction fs arbitrary: c)
  case Nil
  then show ?case by simp
next
  case (Cons f fs)
  show ?case
  proof (cases "length (chunks c) < k")
    case True
    have e: "enqueue f c = Normal (c\<lparr>chunks := chunks c @ [f]\<rparr>)"
      using Cons.prems True by (simp add: enqueue_def can_close_or_enqueue_def)
    have "write_all fs (c\<lparr>chunks := chunks c @ [f]\<rparr>) =
          Throws TypeError (c\<lparr>chunks := chunks c @ [f]\<rparr>
            \<lparr>chunks := chunks (c\<lparr>chunks := chunks c @ [f]\<rparr>)
               @ take (k - length (chunks (c\<lparr>chunks := chunks c @ [f]\<rparr>))) fs\<rparr>)"
      by (rule Cons.IH) (use Cons.prems True in auto)
    moreover have "take (k - length (chunks c)) (f # fs) = f # take (k - Suc (length (chunks c))) fs"
      using True by (simp add: take_Cons')
    ultimately show ?thesis by (simp add: e)
  next
    case False
    then have "enqueue f c = Throws TypeError c"
      using Cons.prems by (simp add: enqueue_def can_close_or_enqueue_def)
    moreover have "k - length (chunks c) = 0"
      using False by simp
    ultimately show ?thesis by simp
  qed
qed

lemma ctl_chat_try:
  "ctl (chat_try (msgs, fin) c) =
     and_then (and_then (and_then (write_all (relayed msgs) c) (finish fin)) (enqueue DONE)) close"
proof -
  have "ctl (chat_try (msgs, fin) c) =
        and_then (ctl (and_then
          (for_await msgs fin \<lparr>controller = c, tokensGenerated = 0, toolsUsed = 0\<rparr>) (send DONE))) close"
    unfolding chat_try_def fst_conv snd_conv
    by (rule ctl_and_then) (simp add: close_def)
  also have "ctl (and_then
          (for_await msgs fin \<lparr>controller = c, tokensGenerated = 0, toolsUsed = 0\<rparr>) (send DONE)) =
        and_then (ctl (for_await msgs fin \<lparr>controller = c, tokensGenerated = 0, toolsUsed = 0\<rparr>))
          (enqueue DONE)"
    by (rule ctl_and_then) (rule ctl_send)
  finally show ?thesis by (simp add: ctl_for_await relayed_def)
qed

lemma chat_start_ctl:
  "chat_start up c =
     (case ctl (chat_try up c) of
        Normal c' \<Rightarrow> Normal c'
      | Throws error c' \<Rightarrow> and_then (enqueue (Data (Error ''Stream error occurred'')) c') close)"
  by (cases "chat_try up c") (simp_all add: chat_start_def)

lemma chat_start_connected:
  "chat_start (msgs, fin) (new_stream None) =
     Normal \<lparr>chunks = relayed msgs @ [terminal fin], hangup = None, close_requested = True\<rparr>"
proof -
  have "write_all (relayed msgs) (new_stream None) = Normal ((new_stream None)\<lparr>chunks := chunks (new_stream None) @ relayed msgs\<rparr>)"
    by (rule write_all_fits) (simp_all add: new_stream_def)
  then show ?thesis
    by (cases fin)
       (simp_all add: chat_start_ctl ctl_chat_try new_stream_def enqueue_def close_def
          can_close_or_enqueue_def terminal_def)
qed

lemma chat_start_hangup:
  "chat_start (msgs, fin) (new_stream (Some k)) =
     (if k \<le> length (relayed msgs) + 1
      then Throws TypeError \<lparr>chunks = take k (relayed msgs @ [terminal fin]), hangup = Some k, close_requested = False\<rparr>
      else Normal \<lparr>chunks = relayed msgs @ [terminal fin], hangup = Some k, close_requested = True\<rparr>)"
proof (cases "k < length (relayed msgs)")
  case True
  have "write_all (relayed msgs) (new_stream (Some k)) =
        Throws TypeError ((new_stream (Some k))\<lparr>chunks := chunks (new_stream (Some k)) @ take (k - length (chunks (new_stream (Some k)))) (relayed msgs)\<rparr>)"
    by (rule write_all_cut) (use True in \<open>simp_all add: new_stream_def\<close>)
  then show ?thesis using True
    by (simp add: chat_start_ctl ctl_chat_try new_stream_def enqueue_def close_def
          can_close_or_enqueue_def)
next
  case False
  have "write_all (relayed msgs) (new_stream (Some k)) = Normal ((new_stream (Some k))\<lparr>chunks := chunks (new_stream (Some k)) @ relayed msgs\<rparr>)"
    by (rule write_all_fits) (use False in \<open>simp_all add: new_stream_def\<close>)
  then show ?thesis using False
    by (cases fin)
       (auto simp add: chat_start_ctl ctl_chat_try new_stream_def enqueue_def close_def
          can_close_or_enqueue_def terminal_def)
qed



lemma relayed_script: "relayed (map report script) = map frame_of script"
proof (induction script)
  case Nil
  show ?case by (simp add: relayed_def)
next
  case (Cons e script)
  then show ?case by (cases e) (simp_all add: relayed_def)
qed

lemma terminal_tool_starts: "filter is_terminal (map Data (tool_starts blocks)) = []"
  by (induction blocks rule: tool_starts.induct) simp_all

lemma terminal_reported:
  "length (filter is_terminal (map Data (reported m))) = (if is_result m then 1 else 0)"
  by (induction m rule: reported.induct) (simp_all add: terminal_tool_starts)

lemma terminal_relayed:
  "length (filter is_terminal (relayed msgs)) = length (filter is_result msgs)"
proof (induction msgs)
  case Nil
  show ?case by (simp add: relayed_def)
next
  case (Cons m msgs)
  have h: "relayed (m # msgs) = map Data (reported m) @ relayed msgs"
    by (simp add: relayed_def)
  show ?case
    unfolding h filter_append length_append terminal_reported Cons.IH by simp
qed

lemma sentinel_not_relayed: "DONE \<notin> set (relayed msgs)"
  by (auto simp: relayed_def)

lemma gong_start_connected:
  "gong_start positive fetched content (new_stream None) =
     Normal \<lparr>chunks = (case responseContent positive fetched content of
                          Inr text \<Rightarrow> [Data (TextDelta text), Data Done, DONE]
                        | Inl error \<Rightarrow> [Data (Error ''Stream error occurred'')]),
             hangup = None, close_requested = True\<rparr>"
  by (cases "responseContent positive fetched content")
     (simp_all add: gong_start_def gong_try_def enqueue_def close_def can_close_or_enqueue_def
        new_stream_def)

subsection \<open>Order of the relayed frames\<close>

text \<open>
  C4. With a client that stays connected, the chat route writes, for every sequence of
  upstream messages, exactly the frames of the events the messages report, one frame per
  event and in the order of the upstream, and then the sentinel. For a script of
  text-delta, tool-start and tool-progress events the frames are the script, frame by
  frame; the script of the specification gives its four frames in its order. A client
  that hangs up after \<open>k\<close> chunks holds the first \<open>k\<close> of the same frames.
\<close>

theorem relay_keeps_upstream_order:
  "chunks (state_of (chat_start (msgs, Completes) (new_stream None)))
     = map Data (concat (map reported msgs)) @ [DONE]
   \<and> chunks (state_of (chat_start (map report script, Completes) (new_stream None)))
     = map frame_of script @ [DONE]
   \<and> chunks (state_of (chat_start
        (map report [Tool ''a'', Text ''x'', Tool ''b'', Text ''y''], Completes) (new_stream None)))
     = [Data (ToolStart ''a''), Data (TextDelta ''x''), Data (ToolStart ''b''),
        Data (TextDelta ''y''), DONE]
   \<and> chunks (state_of (chat_start (msgs, Completes) (new_stream (Some k))))
     = take k (map Data (concat (map reported msgs)) @ [DONE])"
proof -
  have a: "chunks (state_of (chat_start (ms, Completes) (new_stream None))) = relayed ms @ [DONE]"
    for ms
    by (simp add: chat_start_connected terminal_def)
  have b: "chunks (state_of (chat_start (msgs, Completes) (new_stream (Some k))))
             = take k (relayed msgs @ [DONE])"
    by (simp add: chat_start_hangup terminal_def)
  show ?thesis
    using a [of msgs] a [of "map report script"]
      a [of "map report [Tool ''a'', Text ''x'', Tool ''b'', Text ''y'']"] b
    by (simp only: relayed_script) (simp add: relayed_def)
qed

theorem relay_keeps_upstream_order_witness:
  "chunks (state_of (chat_start
      ([Assistant_message (Some [Tool_use ''search'', Other_block, Tool_use ''read'']),
        Tool_progress ''search'' 2,
        Stream_event (Content_block_delta (Some (Text_delta ''hi''))),
        Result ''success''], Completes) (new_stream None)))
     = [Data (ToolStart ''search''), Data (ToolStart ''read''), Data (ToolProgress ''search'' 2),
        Data (TextDelta ''hi''), Data Done, DONE]
   \<and> chunks (state_of (chat_start
      ([Assistant_message (Some [Tool_use ''search'', Other_block, Tool_use ''read'']),
        Tool_progress ''search'' 2,
        Stream_event (Content_block_delta (Some (Text_delta ''hi''))),
        Result ''success''], Completes) (new_stream (Some 3))))
     = [Data (ToolStart ''search''), Data (ToolStart ''read''), Data (ToolProgress ''search'' 2)]"
  using relay_keeps_upstream_order
    [of "[Assistant_message (Some [Tool_use ''search'', Other_block, Tool_use ''read'']),
          Tool_progress ''search'' 2,
          Stream_event (Content_block_delta (Some (Text_delta ''hi''))),
          Result ''success'']" "[]" 3]
  by simp

subsection \<open>Terminal frame and sentinel\<close>

text \<open>
  C1, as amended. With a client that stays connected: when the upstream iteration of the
  chat route ends without raising, the frames written are the relayed frames followed by
  one sentinel, which is the last frame and occurs nowhere else, and among the relayed
  frames there is one done or error frame for each result message of the upstream; when
  the iteration raises, the frames written are the relayed frames followed by one error
  frame with the message \<open>Stream error occurred\<close>, which is the last frame, and no sentinel
  is written. The Gong route writes a text delta, a done frame and the sentinel when its
  generation code does not raise, and the error frame alone, without a sentinel, when it
  does.
\<close>

theorem terminal_frame_then_sentinel_on_success_only:
  "chunks (state_of (chat_start (msgs, Completes) (new_stream None))) = relayed msgs @ [DONE]
   \<and> DONE \<notin> set (relayed msgs)
   \<and> length (filter is_terminal (relayed msgs)) = length (filter is_result msgs)
   \<and> chunks (state_of (chat_start (msgs, Raises) (new_stream None)))
       = relayed msgs @ [Data (Error ''Stream error occurred'')]
   \<and> chunks (state_of (gong_start positive fetched content (new_stream None)))
       = (case responseContent positive fetched content of
            Inr text \<Rightarrow> [Data (TextDelta text), Data Done, DONE]
          | Inl error \<Rightarrow> [Data (Error ''Stream error occurred'')])"
  by (simp add: chat_start_connected gong_start_connected terminal_def terminal_relayed
        sentinel_not_relayed)

theorem terminal_frame_then_sentinel_on_success_only_witness:
  "chunks (state_of (chat_start
      ([Stream_event (Content_block_delta (Some (Text_delta ''hi''))), Result ''success''],
       Completes) (new_stream None)))
     = [Data (TextDelta ''hi''), Data Done, DONE]
   \<and> chunks (state_of (chat_start
      ([Stream_event (Content_block_delta (Some (Text_delta ''hi''))), Result ''success''],
       Raises) (new_stream None)))
     = [Data (TextDelta ''hi''), Data Done, Data (Error ''Stream error occurred'')]
   \<and> chunks (state_of (gong_start (\<lambda>s. False) Not_ok (Some (JStr ''hello'')) (new_stream None)))
     = [Data (TextDelta no_data), Data Done, DONE]"
  using terminal_frame_then_sentinel_on_success_only
    [of "[Stream_event (Content_block_delta (Some (Text_delta ''hi''))), Result ''success'']"
        "\<lambda>s. False" Not_ok "Some (JStr ''hello'')"]
  by (simp add: relayed_def responseContent_def)

text \<open>
  The claim as stated fails where the upstream raises: after a text delta the stream ends
  with the error frame, and no sentinel follows it.
\<close>

theorem no_sentinel_after_upstream_exception:
  "chunks (state_of (chat_start
      ([Stream_event (Content_block_delta (Some (Text_delta ''hi'')))], Raises) (new_stream None)))
     = [Data (TextDelta ''hi''), Data (Error ''Stream error occurred'')]
   \<and> last (chunks (state_of (chat_start
      ([Stream_event (Content_block_delta (Some (Text_delta ''hi'')))], Raises) (new_stream None))))
     \<noteq> DONE"
  by (simp add: chat_start_def chat_try_def send_def enqueue_def close_def
        can_close_or_enqueue_def new_stream_def)

subsection \<open>Writing to a client that has gone\<close>

text \<open>
  C7. The chat route does not swallow the exception of a write to a closed channel. With
  a client that has hung up before the first frame, the write of a text delta throws, the
  \<open>catch\<close> block writes its error frame without a guard, that write throws again, and the
  \<open>TypeError\<close> leaves \<open>start\<close>. In general it leaves \<open>start\<close> whenever the client hangs
  up before the handler has closed the stream.
\<close>

theorem chat_start_throws_on_closed_channel:
  "thrown (chat_start
      ([Stream_event (Content_block_delta (Some (Text_delta ''hi'')))], Completes)
      (new_stream (Some 0))) = Some TypeError
   \<and> thrown (chat_start (msgs, fin) (new_stream (Some k)))
       = (if k \<le> length (relayed msgs) + 1 then Some TypeError else None)"
  by (simp add: chat_start_hangup relayed_def)

text \<open>
  The Gong route swallows the exception of the write: the error frame of its \<open>catch\<close>
  block is written under a guard. Its \<open>close\<close> after the guard is not guarded, and on a
  stream the client has cancelled it throws.
\<close>

lemma gong_start_on_closed_channel:
  "gong_start positive fetched content (new_stream (Some 0)) =
     Throws TypeError \<lparr>chunks = [], hangup = Some 0, close_requested = False\<rparr>"
  by (cases "responseContent positive fetched content")
     (simp_all add: gong_start_def gong_try_def enqueue_def close_def can_close_or_enqueue_def
        new_stream_def)


subsection \<open>Validation\<close>

lemma get_prop_messages: "doc \<noteq> JNull \<Longrightarrow> get_prop doc ''messages'' = Inr (messages_field doc)"
  by (cases doc) simp_all

lemma is_array_iff: "is_array v = (\<exists>xs. v = Some (JArr xs))"
  by (induction v rule: is_array.induct) simp_all

lemma array_truthy: "is_array v \<Longrightarrow> truthy v"
  by (auto simp: is_array_iff)

lemma filter_user_either:
  "filter_user ms = Inr (filter is_user ms) \<or> (\<exists>e. filter_user ms = Inl e)"
proof (induction ms)
  case Nil
  show ?case by simp
next
  case (Cons m ms)
  show ?case
  proof (cases "get_prop m ''role''")
    case (Inl e)
    then show ?thesis by simp
  next
    case (Inr r)
    then have "is_user m = (r = Some (JStr ''user''))"
      by (simp add: is_user_def)
    with Cons.IH Inr show ?thesis by auto
  qed
qed

lemma filter_user_no_null: "JNull \<notin> set ms \<Longrightarrow> filter_user ms = Inr (filter is_user ms)"
proof (induction ms)
  case Nil
  show ?case by simp
next
  case (Cons m ms)
  then have "m \<noteq> JNull" and ih: "filter_user ms = Inr (filter is_user ms)"
    by auto
  then obtain r where r: "get_prop m ''role'' = Inr r"
    by (cases m) simp_all
  then have "is_user m = (r = Some (JStr ''user''))"
    by (simp add: is_user_def)
  then show ?case by (simp add: ih r)
qed

lemma last_user_message_no_array:
  "doc \<noteq> JNull \<Longrightarrow> \<not> is_array (messages_field doc) \<Longrightarrow>
   last_user_message (Some doc) = Inr (Bad_request ''Messages array is required'')"
  by (simp add: last_user_message_def get_prop_messages)

lemma last_user_message_array:
  "messages_field doc = Some (JArr ms) \<Longrightarrow>
   last_user_message (Some doc) =
     after (filter_user ms) (\<lambda>users.
       if users = [] then Inr (Bad_request ''No user message found'')
       else Inr (Proceed (ms, last users)))"
  by (cases doc) (simp_all add: last_user_message_def cong: if_cong)

lemma last_user_message_no_user:
  "messages_field doc = Some (JArr ms) \<Longrightarrow> JNull \<notin> set ms \<Longrightarrow> \<not> list_ex is_user ms \<Longrightarrow>
   last_user_message (Some doc) = Inr (Bad_request ''No user message found'')"
  by (simp add: last_user_message_array filter_user_no_null list_ex_iff filter_empty_conv)

text \<open>Without a user turn no handler gets past the check, whatever else the request holds.\<close>

lemma last_user_message_stops:
  assumes "\<not> is_array (messages_field doc) \<or>
           (messages_field doc = Some (JArr ms) \<and> \<not> list_ex is_user ms)"
  shows "(\<exists>e. last_user_message (Some doc) = Inl e) \<or>
         (\<exists>reason. last_user_message (Some doc) = Inr (Bad_request reason))"
proof (cases "doc = JNull")
  case True
  then show ?thesis by (simp add: last_user_message_def)
next
  case False
  show ?thesis
  proof (cases "is_array (messages_field doc)")
    case no: False
    then show ?thesis using False by (simp add: last_user_message_no_array)
  next
    case True
    with assms have m: "messages_field doc = Some (JArr ms)" and n: "\<not> list_ex is_user ms"
      by auto
    from n have "filter is_user ms = []"
      by (simp add: list_ex_iff filter_empty_conv)
    with filter_user_either [of ms]
    have "filter_user ms = Inr [] \<or> (\<exists>e. filter_user ms = Inl e)"
      by simp
    then show ?thesis by (auto simp: last_user_message_array [OF m])
  qed
qed

lemma chat_POST_stops:
  assumes "(\<exists>e. last_user_message rq = Inl e) \<or> (\<exists>reason. last_user_message rq = Inr (Bad_request reason))"
  shows "status (chat_POST rq up client) \<in> {400, 500} \<and> is_error_shape (body (chat_POST rq up client))
         \<and> calls (chat_POST rq up client) = []"
  using assms by (auto simp: chat_POST_def prepare_def error_json_def)

lemma gong_POST_stops:
  assumes "(\<exists>e. last_user_message rq = Inl e) \<or> (\<exists>reason. last_user_message rq = Inr (Bad_request reason))"
  shows "status (gong_POST positive rq fetched client) \<in> {400, 500}
         \<and> is_error_shape (body (gong_POST positive rq fetched client))
         \<and> calls (gong_POST positive rq fetched client) = []"
  using assms by (auto simp: gong_POST_def error_json_def)

lemma json_of_turn_not_null: "JNull \<notin> set (map json_of_turn turns)"
proof (induction turns)
  case Nil
  show ?case by simp
next
  case (Cons t turns)
  then show ?case by (cases t) simp_all
qed

lemma is_user_json_of_turn: "is_user (json_of_turn t) = by_user t"
proof (cases t)
  case (Turn who words)
  then show ?thesis by (cases who) (simp_all add: is_user_def)
qed

lemma filter_user_typed:
  "filter_user (map json_of_turn turns) = Inr (map json_of_turn (filter by_user turns))"
  by (simp add: filter_user_no_null [OF json_of_turn_not_null] filter_map comp_def
        is_user_json_of_turn)

lemma last_user_message_typed:
  "last_user_message (Some (request_of turns)) =
     Inr (if list_ex by_user turns
          then Proceed (map json_of_turn turns, json_of_turn (last (filter by_user turns)))
          else Bad_request ''No user message found'')"
proof -
  have "messages_field (request_of turns) = Some (JArr (map json_of_turn turns))"
    by (simp add: request_of_def)
  then show ?thesis
    by (simp add: last_user_message_array filter_user_typed list_ex_iff filter_empty_conv
          last_map)
qed

lemma speaker_line_typed: "speaker_line (json_of_turn t) = Inr (speaker_text t)"
proof (cases t)
  case (Turn who words)
  then show ?thesis by (cases who) (simp_all add: speaker_line_def)
qed

lemma collect_typed: "collect (map speaker_line (map json_of_turn turns)) = Inr (map speaker_text turns)"
  by (induction turns) (simp_all add: speaker_line_typed)

lemma fullPrompt_typed:
  "fullPrompt system_prompt (map json_of_turn turns) (json_of_turn (Turn who text)) =
     Inr (let context = join_with ''\<newline>\<newline>'' (map speaker_text (butlast turns))
          in if context \<noteq> []
             then system_prompt @ ''\<newline>\<newline>Previous conversation:\<newline>'' @ context
                  @ ''\<newline>\<newline>User: '' @ text
             else system_prompt @ ''\<newline>\<newline>User: '' @ text)"
proof -
  have "collect (map speaker_line (butlast (map json_of_turn turns))) =
        Inr (map speaker_text (butlast turns))"
    using collect_typed [of "butlast turns"] by (simp add: map_butlast)
  then show ?thesis by (simp add: fullPrompt_def Let_def)
qed

lemma prepare_typed:
  "prepare system_prompt (Some (request_of turns)) =
     Inr (if list_ex by_user turns then Proceed (typed_prompt system_prompt turns)
          else Bad_request ''No user message found'')"
proof (cases "list_ex by_user turns")
  case False
  then show ?thesis by (simp add: prepare_def last_user_message_typed)
next
  case True
  obtain who words where t: "last (filter by_user turns) = Turn who words"
    by (cases "last (filter by_user turns)")
  show ?thesis
    using True
    by (simp add: prepare_def last_user_message_typed t fullPrompt_typed typed_prompt_def Let_def
          del: json_of_turn.simps)
qed

lemma filter_user_null: "JNull \<in> set ms \<Longrightarrow> filter_user ms = Inl TypeError"
proof (induction ms)
  case Nil
  then show ?case by simp
next
  case (Cons m ms)
  show ?case
  proof (cases "m = JNull")
    case True
    then show ?thesis by simp
  next
    case False
    with Cons have ih: "filter_user ms = Inl TypeError"
      by simp
    from False obtain r where "get_prop m ''role'' = Inr r"
      by (cases m) simp_all
    then show ?thesis by (simp add: ih)
  qed
qed

lemma last_user_message_null_turn:
  "messages_field doc = Some (JArr ms) \<Longrightarrow> JNull \<in> set ms \<Longrightarrow>
   last_user_message (Some doc) = Inl TypeError"
  by (simp add: last_user_message_array filter_user_null)

lemma last_user_message_null_body: "last_user_message (Some JNull) = Inl TypeError"
  by (simp add: last_user_message_def)


subsection \<open>Which requests are rejected\<close>

text \<open>
  C2. The handlers do not look at the role of the last turn. On a conversation whose
  first turn is by the user and whose last turn is by the assistant the chat route
  answers 200, opens the stream and goes upstream once. The source leaves the last
  message out of the context ``since we pass it as the prompt''; here the message left
  out is the assistant's turn, and the prompt that goes upstream holds the user's turn
  twice. The email-agent chat route builds its prompt the same way.
\<close>

theorem last_turn_by_assistant_goes_upstream:
  "chat_POST
     (Some (JObj [(''messages'',
        JArr [JObj [(''role'', JStr ''user''), (''content'', JStr ''hi'')],
              JObj [(''role'', JStr ''assistant''), (''content'', JStr ''hello'')]])]))
     ([Result ''success''], Completes) None
     = \<lparr>status = 200,
        body = Event_stream
          (Normal \<lparr>chunks = [Data Done, DONE], hangup = None, close_requested = True\<rparr>),
        calls = [Query (CHAT_SYSTEM_PROMPT
                   @ ''\<newline>\<newline>Previous conversation:\<newline>User: hi\<newline>\<newline>User: hi'')]\<rparr>
   \<and> status (email_chat_POST
     (Some (JObj [(''messages'',
        JArr [JObj [(''role'', JStr ''user''), (''content'', JStr ''hi'')],
              JObj [(''role'', JStr ''assistant''), (''content'', JStr ''hello'')]])]))
     ([Result ''success''], Completes) ''2026-01-01T00:00:00.000Z'') = 200
   \<and> calls (email_chat_POST
     (Some (JObj [(''messages'',
        JArr [JObj [(''role'', JStr ''user''), (''content'', JStr ''hi'')],
              JObj [(''role'', JStr ''assistant''), (''content'', JStr ''hello'')]])]))
     ([Result ''success''], Completes) ''2026-01-01T00:00:00.000Z'')
     = [Query (EMAIL_SYSTEM_PROMPT
          @ ''\<newline>\<newline>Previous conversation:\<newline>User: hi\<newline>\<newline>User: hi'')]"
proof -
  have rq: "JObj [(''messages'',
        JArr [JObj [(''role'', JStr ''user''), (''content'', JStr ''hi'')],
              JObj [(''role'', JStr ''assistant''), (''content'', JStr ''hello'')]])]
      = request_of [Turn User ''hi'', Turn Assistant ''hello'']"
    by (simp add: request_of_def)
  have p: "typed_prompt system_prompt [Turn User ''hi'', Turn Assistant ''hello'']
      = system_prompt @ ''\<newline>\<newline>Previous conversation:\<newline>User: hi\<newline>\<newline>User: hi''"
    for system_prompt
    by (simp add: typed_prompt_def)
  show ?thesis
    unfolding rq
    by (simp add: chat_POST_def email_chat_POST_def prepare_typed p chat_start_connected
          relayed_def terminal_def Let_def)
qed

text \<open>
  C3, as amended. For a body that is not \<open>null\<close> and whose \<open>messages\<close> member is missing
  or not an array, and for a body whose \<open>messages\<close> array holds no \<open>null\<close> and no element
  with the role \<open>user\<close>, the chat route and the Gong route answer HTTP 400 with a body of
  the shape \<open>{error: string}\<close> and make no upstream call. For the body \<open>null\<close>, and for
  every body whose \<open>messages\<close> array holds a \<open>null\<close>, they answer HTTP 500 with a body of
  that shape and make no upstream call. So for every body without an array of messages
  or without a user turn the answer is 400 or 500, has that shape, and no upstream call
  is made.
\<close>

theorem no_user_turn_no_upstream_call:
  "(doc \<noteq> JNull \<longrightarrow> \<not> is_array (messages_field doc) \<longrightarrow>
      chat_POST (Some doc) up client = bad_request ''Messages array is required''
      \<and> gong_POST positive (Some doc) fetched client = bad_request ''Messages array is required'')
   \<and> (messages_field doc = Some (JArr ms) \<longrightarrow> JNull \<notin> set ms \<longrightarrow> \<not> list_ex is_user ms \<longrightarrow>
      chat_POST (Some doc) up client = bad_request ''No user message found''
      \<and> gong_POST positive (Some doc) fetched client = bad_request ''No user message found'')
   \<and> (\<not> is_array (messages_field doc)
        \<or> (messages_field doc = Some (JArr ms) \<and> \<not> list_ex is_user ms) \<longrightarrow>
      status (chat_POST (Some doc) up client) \<in> {400, 500}
      \<and> is_error_shape (body (chat_POST (Some doc) up client))
      \<and> calls (chat_POST (Some doc) up client) = []
      \<and> status (gong_POST positive (Some doc) fetched client) \<in> {400, 500}
      \<and> is_error_shape (body (gong_POST positive (Some doc) fetched client))
      \<and> calls (gong_POST positive (Some doc) fetched client) = [])
   \<and> is_error_shape (body (bad_request reason)) \<and> status (bad_request reason) = 400
   \<and> calls (bad_request reason) = []
   \<and> chat_POST (Some JNull) up client = chat_failed
   \<and> gong_POST positive (Some JNull) fetched client = gong_failed
   \<and> (messages_field doc = Some (JArr ms) \<longrightarrow> JNull \<in> set ms \<longrightarrow>
      chat_POST (Some doc) up client = chat_failed
      \<and> gong_POST positive (Some doc) fetched client = gong_failed)
   \<and> status chat_failed = 500 \<and> is_error_shape (body chat_failed) \<and> calls chat_failed = []
   \<and> status gong_failed = 500 \<and> is_error_shape (body gong_failed) \<and> calls gong_failed = []"
proof -
  have a: "chat_POST (Some doc) up client = bad_request ''Messages array is required''
           \<and> gong_POST positive (Some doc) fetched client = bad_request ''Messages array is required''"
    if "doc \<noteq> JNull" "\<not> is_array (messages_field doc)"
    using that
    by (simp add: chat_POST_def gong_POST_def prepare_def last_user_message_no_array
          bad_request_def)
  have b: "chat_POST (Some doc) up client = bad_request ''No user message found''
           \<and> gong_POST positive (Some doc) fetched client = bad_request ''No user message found''"
    if "messages_field doc = Some (JArr ms)" "JNull \<notin> set ms" "\<not> list_ex is_user ms"
    using that
    by (simp add: chat_POST_def gong_POST_def prepare_def last_user_message_no_user
          bad_request_def)
  have c: "status (chat_POST (Some doc) up client) \<in> {400, 500}
      \<and> is_error_shape (body (chat_POST (Some doc) up client))
      \<and> calls (chat_POST (Some doc) up client) = []
      \<and> status (gong_POST positive (Some doc) fetched client) \<in> {400, 500}
      \<and> is_error_shape (body (gong_POST positive (Some doc) fetched client))
      \<and> calls (gong_POST positive (Some doc) fetched client) = []"
    if "\<not> is_array (messages_field doc)
        \<or> (messages_field doc = Some (JArr ms) \<and> \<not> list_ex is_user ms)"
    using chat_POST_stops [OF last_user_message_stops [OF that]]
      gong_POST_stops [OF last_user_message_stops [OF that]]
    by simp
  have d: "is_error_shape (body (bad_request reason)) \<and> status (bad_request reason) = 400
           \<and> calls (bad_request reason) = []"
    by (simp add: bad_request_def error_json_def)
  have e: "chat_POST (Some JNull) up client = chat_failed"
    "gong_POST positive (Some JNull) fetched client = gong_failed"
    by (simp_all add: chat_POST_def gong_POST_def prepare_def last_user_message_null_body
          chat_failed_def gong_failed_def)
  have f: "chat_POST (Some doc) up client = chat_failed
           \<and> gong_POST positive (Some doc) fetched client = gong_failed"
    if "messages_field doc = Some (JArr ms)" "JNull \<in> set ms"
    using that
    by (simp add: chat_POST_def gong_POST_def prepare_def last_user_message_null_turn
          chat_failed_def gong_failed_def)
  have g: "status chat_failed = 500 \<and> is_error_shape (body chat_failed) \<and> calls chat_failed = []
           \<and> status gong_failed = 500 \<and> is_error_shape (body gong_failed)
           \<and> calls gong_failed = []"
    by (simp add: chat_failed_def gong_failed_def error_json_def)
  from a b c d e f g show ?thesis by blast
qed

theorem no_user_turn_no_upstream_call_witness:
  "chat_POST (Some (JObj [(''prompt'', JStr ''hi'')])) ([Result ''success''], Completes) None
     = bad_request ''Messages array is required''
   \<and> gong_POST (\<lambda>s. False) (Some (JObj [(''messages'', JStr ''hi'')])) Not_ok None
     = bad_request ''Messages array is required''
   \<and> chat_POST (Some (JObj [(''messages'', JArr [JObj [(''role'', JStr ''assistant'')], JNum 3])]))
       ([Result ''success''], Completes) None
     = bad_request ''No user message found''
   \<and> chat_POST (Some (JObj [(''messages'', JArr [JNull])]))
       ([Result ''success''], Completes) None = chat_failed
   \<and> gong_POST (\<lambda>s. False) (Some (JObj [(''messages'', JArr [JNull])])) Not_ok None = gong_failed
   \<and> status gong_failed = 500
   \<and> is_error_shape (body (bad_request ''No user message found''))"
  using no_user_turn_no_upstream_call
      [of "JObj [(''prompt'', JStr ''hi'')]" "([Result ''success''], Completes)" None "\<lambda>s. False" Not_ok "[]"
          "''No user message found''"]
    no_user_turn_no_upstream_call
      [of "JObj [(''messages'', JStr ''hi'')]" "([Result ''success''], Completes)" None "\<lambda>s. False" Not_ok "[]"
          "''No user message found''"]
    no_user_turn_no_upstream_call
      [of "JObj [(''messages'', JArr [JObj [(''role'', JStr ''assistant'')], JNum 3])]"
          "([Result ''success''], Completes)" None "\<lambda>s. False" Not_ok
          "[JObj [(''role'', JStr ''assistant'')], JNum 3]" "''No user message found''"]
    no_user_turn_no_upstream_call
      [of "JObj [(''messages'', JArr [JNull])]" "([Result ''success''], Completes)" None "\<lambda>s. False" Not_ok
          "[JNull]" "''No user message found''"]
  by (simp add: is_user_def)

text \<open>
  The claim as stated fails on \<open>{"messages": [null]}\<close>, an array without a user turn,
  and on the body \<open>null\<close>, which has no \<open>messages\<close> member: reading \<open>role\<close> of \<open>null\<close>,
  or \<open>messages\<close> of \<open>null\<close>, throws, and the outer \<open>catch\<close> answers 500.
\<close>

theorem null_turn_is_answered_500:
  "status (chat_POST (Some (JObj [(''messages'', JArr [JNull])]))
      ([Result ''success''], Completes) None) = 500
   \<and> status (gong_POST (\<lambda>s. False) (Some (JObj [(''messages'', JArr [JNull])])) Not_ok None) = 500
   \<and> status (chat_POST (Some JNull) ([Result ''success''], Completes) None) = 500
   \<and> status (gong_POST (\<lambda>s. False) (Some JNull) Not_ok None) = 500"
  by (simp add: chat_POST_def gong_POST_def prepare_def last_user_message_def)


subsection \<open>The analysis routes\<close>

lemma gather_text_of: "gather msgs acc = acc @ text_of msgs"
  by (induction msgs acc rule: gather.induct) (simp_all add: text_of_def)

lemma split_at_sound: "split_at pat t = Some (before, rest) \<Longrightarrow> t = before @ pat @ rest"
proof (induction t arbitrary: before)
  case Nil
  then show ?case by (simp split: if_splits)
next
  case (Cons c cs)
  show ?case
  proof (cases "take (length pat) (c # cs) = pat")
    case True
    with Cons.prems have "before = []" and "rest = drop (length pat) (c # cs)"
      by simp_all
    with True show ?thesis
      by (metis append_Nil append_take_drop_id)
  next
    case False
    with Cons.prems obtain b where "split_at pat cs = Some (b, rest)" and "before = c # b"
      by (auto split: option.splits)
    with Cons.IH show ?thesis by simp
  qed
qed

text \<open>A block the extraction returns stands between its opener and a closing line.\<close>

lemma fenced_sound:
  assumes "fenced opener t = Some inner"
  shows "\<exists>before beyond. t = before @ opener @ inner @ ''\<newline>```'' @ beyond"
proof -
  from assms obtain before rest where 1: "split_at opener t = Some (before, rest)"
    by (auto simp: fenced_def split: option.splits)
  with assms obtain beyond where 2: "split_at ''\<newline>```'' rest = Some (inner, beyond)"
    by (auto simp: fenced_def split: option.splits)
  from split_at_sound [OF 1] split_at_sound [OF 2]
  have "t = before @ opener @ inner @ ''\<newline>```'' @ beyond"
    by simp
  then show ?thesis by blast
qed

lemma analysis_POST_completes:
  "analysis_POST JSON_parse (msgs, Completes) =
     (case JSON_parse (jsonString (text_of msgs)) of
        None \<Rightarrow> \<lparr>status = 200, body = Json (fallback (text_of msgs))\<rparr>
      | Some document \<Rightarrow>
          if document = JNull then analysis_failed else \<lparr>status = 200, body = Json document\<rparr>)"
  by (simp add: analysis_POST_def gather_text_of Let_def fallback_def split: option.splits)

text \<open>
  C5, as amended. When the upstream call raises, the analysis route answers HTTP 500
  with the document \<open>{error, summary, todos: [], insights: []}\<close>. When it completes, the
  route answers HTTP 200 with a single JSON document: the fallback document, which has
  the shape \<open>{summary, todos, insights}\<close>, when the extracted text does not parse, and
  otherwise the parsed document as it is, whatever its shape (a parsed \<open>null\<close> is answered
  like a failure).
\<close>

theorem analysis_answers_parsed_document_as_is:
  "analysis_POST JSON_parse (msgs, Raises) = analysis_failed
   \<and> status analysis_failed = 500
   \<and> body analysis_failed =
       Json (JObj [(''error'', JStr ''Failed to analyze inbox''),
         (''summary'', JStr (''An error occurred while analyzing your inbox. Please make sure ''
            @ ''the Gmail MCP server is configured and you have granted permissions.'')),
         (''todos'', JArr []), (''insights'', JArr [])])
   \<and> analysis_POST JSON_parse (msgs, Completes) =
       (case JSON_parse (jsonString (text_of msgs)) of
          None \<Rightarrow> \<lparr>status = 200, body = Json (fallback (text_of msgs))\<rparr>
        | Some document \<Rightarrow>
            if document = JNull then analysis_failed else \<lparr>status = 200, body = Json document\<rparr>)
   \<and> analysis_shape (fallback text)"
  by (simp add: analysis_POST_completes)
     (simp add: analysis_POST_def analysis_failed_def fallback_def)

theorem analysis_answers_parsed_document_as_is_witness:
  "analysis_POST parse_literal
      ([Stream_event (Content_block_delta (Some (Text_delta ''{}'')))], Raises) = analysis_failed
   \<and> analysis_POST parse_literal
      ([Stream_event (Content_block_delta (Some (Text_delta ''[''))),
        Stream_event (Content_block_delta (Some (Text_delta '']'')))], Completes)
     = \<lparr>status = 200, body = Json (JArr [])\<rparr>
   \<and> analysis_POST parse_literal
      ([Stream_event (Content_block_delta (Some (Text_delta ''Inbox is calm.'')))], Completes)
     = \<lparr>status = 200, body = Json (fallback ''Inbox is calm.'')\<rparr>"
  using analysis_answers_parsed_document_as_is
      [of parse_literal "[Stream_event (Content_block_delta (Some (Text_delta ''{}'')))]" "[]"]
    analysis_answers_parsed_document_as_is
      [of parse_literal "[Stream_event (Content_block_delta (Some (Text_delta ''[''))),
        Stream_event (Content_block_delta (Some (Text_delta '']'')))]" "[]"]
    analysis_answers_parsed_document_as_is
      [of parse_literal "[Stream_event (Content_block_delta (Some (Text_delta ''Inbox is calm.'')))]"
          "[]"]
  by (simp add: text_of_def jsonString_def jsonMatch_def fenced_def parse_literal_def)

text \<open>
  The claim as stated fails when the upstream answers with JSON of another shape: the
  text \<open>{}\<close> parses, and the route answers 200 with the empty object, which has no
  summary, no todos and no insights.
\<close>

theorem analysis_success_without_summary:
  "analysis_POST parse_literal
      ([Stream_event (Content_block_delta (Some (Text_delta ''{}'')))], Completes)
     = \<lparr>status = 200, body = Json (JObj [])\<rparr>
   \<and> \<not> analysis_shape (JObj [])"
  by (simp add: analysis_POST_completes text_of_def jsonString_def jsonMatch_def fenced_def
        parse_literal_def)

subsection \<open>The regular expressions of the extraction\<close>

lemma find_map_option: "find P (map f xs) = map_option f (find (P \<circ> f) xs)"
  by (induction xs) simp_all

lemma occurs_at_Cons: "occurs_at pat (c # cs) (Suc i) = occurs_at pat cs i"
  by (simp add: occurs_at_def)

lemma upt_Suc_shift: "[0..<Suc (Suc n)] = 0 # map Suc [0..<Suc n]"
  by (simp add: upt_conv_Cons map_Suc_upt del: upt_Suc)

lemma split_at_find:
  assumes "pat \<noteq> []"
  shows "split_at pat t =
     map_option (\<lambda>i. (take i t, drop (i + length pat) t))
       (find (occurs_at pat t) [0..<Suc (length t)])"
proof (induction t)
  case Nil
  from assms show ?case by (simp add: occurs_at_def)
next
  case (Cons c cs)
  show ?case
  proof (cases "take (length pat) (c # cs) = pat")
    case True
    then have "occurs_at pat (c # cs) 0"
      by (simp add: occurs_at_def)
    then show ?thesis using True
      by (simp add: upt_Suc_shift del: upt_Suc)
  next
    case False
    then have no: "\<not> occurs_at pat (c # cs) 0"
      by (simp add: occurs_at_def)
    have "find (occurs_at pat (c # cs)) [0..<Suc (length (c # cs))] =
          map_option Suc (find (occurs_at pat cs) [0..<Suc (length cs)])"
      using no
      by (simp add: upt_Suc_shift find_map_option comp_def occurs_at_Cons del: upt_Suc)
    then show ?thesis using False Cons.IH
      by (cases "find (occurs_at pat cs) [0..<Suc (length cs)]") simp_all
  qed
qed


lemma occurs_at_drop: "occurs_at pat (drop s t) j = occurs_at pat t (s + j)"
  by (simp add: occurs_at_def add.commute)

lemma upt_shift: "s \<le> n \<Longrightarrow> [s..<Suc n] = map (\<lambda>j. s + j) [0..<Suc (n - s)]"
proof -
  assume "s \<le> n"
  have "map (\<lambda>j. j + s) [0..<Suc (n - s)] = [s..<Suc (n - s) + s]"
    by (rule map_add_upt)
  moreover have "Suc (n - s) + s = Suc n"
    using \<open>s \<le> n\<close> by simp
  ultimately show ?thesis by (simp add: add.commute del: upt_Suc)
qed

lemma find_shift:
  assumes "s \<le> length t"
  shows "find (occurs_at pat t) [s..<Suc (length t)] =
     map_option (\<lambda>j. s + j) (find (occurs_at pat (drop s t)) [0..<Suc (length (drop s t))])"
proof -
  have "find (occurs_at pat t) [s..<Suc (length t)] =
        find (occurs_at pat t) (map (\<lambda>j. s + j) [0..<Suc (length t - s)])"
    using upt_shift [OF assms] by simp
  also have "\<dots> = map_option (\<lambda>j. s + j)
        (find (occurs_at pat t \<circ> (\<lambda>j. s + j)) [0..<Suc (length t - s)])"
    by (rule find_map_option)
  also have "occurs_at pat t \<circ> (\<lambda>j. s + j) = occurs_at pat (drop s t)"
    by (rule ext) (simp add: occurs_at_drop)
  finally show ?thesis by simp
qed

lemma find_upt_first:
  assumes "find P [a..<b] = Some i"
  shows "a \<le> i \<and> i < b \<and> P i \<and> (\<forall>k. a \<le> k \<and> k < i \<longrightarrow> \<not> P k)"
proof -
  from assms obtain n where n: "n < length [a..<b]" "P ([a..<b] ! n)" "i = [a..<b] ! n"
    "\<forall>m<n. \<not> P ([a..<b] ! m)"
    unfolding find_Some_iff by blast
  from n(1) have i: "i = a + n" "a + n < b"
    using n(3) by simp_all
  have "\<not> P k" if "a \<le> k" "k < i" for k
  proof -
    from that i have "k - a < n" "a + (k - a) = k" "a + (k - a) < b"
      by simp_all
    with n(4) have "\<not> P ([a..<b] ! (k - a))"
      by blast
    then show ?thesis
      using \<open>a + (k - a) = k\<close> \<open>a + (k - a) < b\<close> by simp
  qed
  with n i show ?thesis by simp
qed

lemma occurs_at_bound: "pat \<noteq> [] \<Longrightarrow> occurs_at pat t i \<Longrightarrow> i + length pat \<le> length t"
proof -
  assume "pat \<noteq> []" and "occurs_at pat t i"
  then have "length (take (length pat) (drop i t)) = length pat"
    by (simp add: occurs_at_def)
  then have "length pat \<le> length t - i"
    by simp
  with \<open>pat \<noteq> []\<close> show ?thesis by (cases pat) simp_all
qed

text \<open>The extraction by search, written with positions.\<close>

lemma fenced_find:
  assumes "opener \<noteq> []"
  shows "fenced opener t =
     (case find (occurs_at opener t) [0..<Suc (length t)] of
        None \<Rightarrow> None
      | Some i \<Rightarrow>
          (case find (occurs_at ''\<newline>```'' t) [i + length opener..<Suc (length t)] of
             None \<Rightarrow> None
           | Some j \<Rightarrow> Some (take (j - (i + length opener)) (drop (i + length opener) t))))"
proof (cases "find (occurs_at opener t) [0..<Suc (length t)]")
  case None
  have "split_at opener t = None"
    unfolding split_at_find [OF assms] None by simp
  then show ?thesis
    unfolding fenced_def None by simp
next
  case (Some i)
  define s where "s = i + length opener"
  from find_upt_first [OF Some] have "occurs_at opener t i"
    by simp
  from occurs_at_bound [OF assms this] have le: "s \<le> length t"
    by (simp add: s_def)
  have closer: "''\<newline>```'' \<noteq> []"
    by simp
  have 1: "split_at opener t = Some (take i t, drop s t)"
    unfolding split_at_find [OF assms] Some s_def by simp
  have f: "fenced opener t =
      (case split_at ''\<newline>```'' (drop s t) of None \<Rightarrow> None | Some (inner, beyond) \<Rightarrow> Some inner)"
    unfolding fenced_def 1 by simp
  note 2 = split_at_find [OF closer, of "drop s t"]
  have 3: "find (occurs_at ''\<newline>```'' t) [i + length opener..<Suc (length t)] =
      map_option (\<lambda>j. s + j)
        (find (occurs_at ''\<newline>```'' (drop s t)) [0..<Suc (length (drop s t))])"
    using find_shift [OF le, of "''\<newline>```''"] by (simp only: s_def)
  show ?thesis
  proof (cases "find (occurs_at ''\<newline>```'' (drop s t)) [0..<Suc (length (drop s t))]")
    case None
    have a: "split_at ''\<newline>```'' (drop s t) = None"
      unfolding 2 None by simp
    have b: "find (occurs_at ''\<newline>```'' t) [i + length opener..<Suc (length t)] = None"
      unfolding 3 None by simp
    show ?thesis
      unfolding f a Some by (simp add: b del: upt_Suc)
  next
    case found: (Some j)
    have a: "split_at ''\<newline>```'' (drop s t) = Some (take j (drop s t), drop (j + length ''\<newline>```'') (drop s t))"
      unfolding 2 found by simp
    have b: "find (occurs_at ''\<newline>```'' t) [i + length opener..<Suc (length t)] = Some (s + j)"
      unfolding 3 found by simp
    show ?thesis
      unfolding f a Some by (simp add: b s_def del: upt_Suc)
  qed
qed

lemma find_and:
  "find P xs = Some x \<Longrightarrow> Q x \<Longrightarrow> find (\<lambda>y. P y \<and> Q y) xs = Some x"
  by (induction xs) (auto split: if_splits)

lemma find_ex: "(find P xs \<noteq> None) = list_ex P xs"
  by (induction xs) simp_all

lemma fenced_regex_group:
  assumes "opener \<noteq> []"
  shows "fenced opener t = regex_group opener t"
proof (cases "find (occurs_at opener t) [0..<Suc (length t)]")
  case None
  then have "find (\<lambda>i. occurs_at opener t i
                     \<and> list_ex (occurs_at ''\<newline>```'' t) [i + length opener..<Suc (length t)])
             [0..<Suc (length t)] = None"
    by (auto simp: find_None_iff)
  then show ?thesis
    by (simp add: fenced_find [OF assms] regex_group_def None del: upt_Suc)
next
  case (Some i)
  note first = find_upt_first [OF Some]
  show ?thesis
  proof (cases "list_ex (occurs_at ''\<newline>```'' t) [i + length opener..<Suc (length t)]")
    case True
    from find_and [OF Some, of "\<lambda>i. list_ex (occurs_at ''\<newline>```'' t) [i + length opener..<Suc (length t)]"] True
    have "find (\<lambda>i. occurs_at opener t i
                     \<and> list_ex (occurs_at ''\<newline>```'' t) [i + length opener..<Suc (length t)])
             [0..<Suc (length t)] = Some i"
      by simp
    then show ?thesis
      by (simp add: fenced_find [OF assms] regex_group_def Some del: upt_Suc)
  next
    case False
    then have none: "find (occurs_at ''\<newline>```'' t) [i + length opener..<Suc (length t)] = None"
      using find_ex [of "occurs_at ''\<newline>```'' t" "[i + length opener..<Suc (length t)]"] by simp
    have "\<not> (occurs_at opener t k
              \<and> list_ex (occurs_at ''\<newline>```'' t) [k + length opener..<Suc (length t)])" for k
    proof
      assume k: "occurs_at opener t k
              \<and> list_ex (occurs_at ''\<newline>```'' t) [k + length opener..<Suc (length t)]"
      with first have "i \<le> k"
        by (metis le0 not_le_imp_less)
      from k obtain j where "k + length opener \<le> j" "j < Suc (length t)" "occurs_at ''\<newline>```'' t j"
        by (auto simp: list_ex_iff simp del: upt_Suc)
      with \<open>i \<le> k\<close> have "list_ex (occurs_at ''\<newline>```'' t) [i + length opener..<Suc (length t)]"
        by (auto simp: list_ex_iff simp del: upt_Suc)
      with False show False by simp
    qed
    then have "find (\<lambda>i. occurs_at opener t i
                     \<and> list_ex (occurs_at ''\<newline>```'' t) [i + length opener..<Suc (length t)])
             [0..<Suc (length t)] = None"
      by (simp add: find_None_iff)
    then show ?thesis
      by (simp add: fenced_find [OF assms] regex_group_def Some none del: upt_Suc)
  qed
qed

lemma regex_group_fenced: "opener \<noteq> [] \<Longrightarrow> regex_group opener t = fenced opener t"
  by (simp add: fenced_regex_group)

lemma jsonString_chosen: "jsonString t = chosen_text t"
  by (simp add: jsonString_def jsonMatch_def chosen_text_def regex_group_fenced
        split: option.splits)

text \<open>
  C6. The extraction hands one text to the parser: the group of the expression with the
  \<open>json\<close> fence where that expression matches, else the group of the expression with
  the plain fence where that one matches, else the whole text; a group is the text
  between the first opener that has a closing line behind it and the first closing line
  behind that opener. Only this text is parsed. When it parses, the route answers 200
  with the parsed document (a parsed \<open>null\<close> is answered like a failure). When it does
  not parse, the route does not fail: it answers 200 with the fallback document, whose
  summary is the first 500 characters of the upstream text and whose todos and insights
  are one fixed placeholder each; so it does in particular when none of the candidates
  parses.
\<close>

theorem first_candidate_is_parsed_else_fallback:
  "jsonString t = chosen_text t
   \<and> analysis_POST JSON_parse (msgs, Completes) =
       (case JSON_parse (chosen_text (text_of msgs)) of
          None \<Rightarrow>
            \<lparr>status = 200,
             body = Json (JObj
               [(''summary'', JStr (take 500 (text_of msgs))),
                (''todos'', JArr [JObj [(''id'', JStr ''1''),
                                        (''text'', JStr ''Review email analysis results''),
                                        (''source'', JStr ''Email Agent''),
                                        (''priority'', JStr ''medium'')]]),
                (''insights'', JArr [JObj [(''type'', JStr ''info''),
                                           (''title'', JStr ''Analysis Complete''),
                                           (''description'',
                                            JStr ''Check the summary above for details'')]])])\<rparr>
        | Some document \<Rightarrow>
            if document = JNull then analysis_failed else \<lparr>status = 200, body = Json document\<rparr>)
   \<and> (list_all (\<lambda>candidate. JSON_parse candidate = None) (candidates (text_of msgs)) \<longrightarrow>
        analysis_POST JSON_parse (msgs, Completes) =
          \<lparr>status = 200,
           body = Json (JObj
             [(''summary'', JStr (take 500 (text_of msgs))),
              (''todos'', JArr [JObj [(''id'', JStr ''1''),
                                      (''text'', JStr ''Review email analysis results''),
                                      (''source'', JStr ''Email Agent''),
                                      (''priority'', JStr ''medium'')]]),
              (''insights'', JArr [JObj [(''type'', JStr ''info''),
                                         (''title'', JStr ''Analysis Complete''),
                                         (''description'',
                                          JStr ''Check the summary above for details'')]])])\<rparr>)"
proof -
  note full = analysis_POST_completes [of JSON_parse msgs, unfolded jsonString_chosen fallback_def]
  have "JSON_parse (chosen_text (text_of msgs)) = None"
    if "list_all (\<lambda>candidate. JSON_parse candidate = None) (candidates (text_of msgs))"
  proof -
    have "chosen_text (text_of msgs) \<in> set (candidates (text_of msgs))"
      by (simp add: candidates_def chosen_text_def split: option.splits)
    with that show ?thesis by (simp add: list_all_iff)
  qed
  then show ?thesis
    using full by (simp add: jsonString_chosen)
qed

theorem first_candidate_is_parsed_else_fallback_witness:
  "analysis_POST parse_literal
      ([Stream_event (Content_block_delta (Some (Text_delta ''Here you are:\<newline>```json\<newline>{}''))),
        Stream_event (Content_block_delta (Some (Text_delta ''\<newline>```\<newline>and ```\<newline>[]\<newline>```'')))],
       Completes)
     = \<lparr>status = 200, body = Json (JObj [])\<rparr>
   \<and> analysis_POST parse_literal
      ([Stream_event (Content_block_delta (Some (Text_delta ''Plain:\<newline>```\<newline>[]\<newline>```'')))],
       Completes)
     = \<lparr>status = 200, body = Json (JArr [])\<rparr>
   \<and> analysis_POST parse_literal
      ([Stream_event (Content_block_delta (Some (Text_delta ''true'')))], Completes)
     = \<lparr>status = 200, body = Json (JBool True)\<rparr>
   \<and> candidates ''```json\<newline>not json\<newline>``` and ```\<newline>{}\<newline>```''
     = [''not json'', ''{}'', ''```json\<newline>not json\<newline>``` and ```\<newline>{}\<newline>```'']
   \<and> parse_literal ''{}'' = Some (JObj [])
   \<and> analysis_POST parse_literal
      ([Stream_event (Content_block_delta
          (Some (Text_delta ''```json\<newline>not json\<newline>``` and ```\<newline>{}\<newline>```'')))], Completes)
     = \<lparr>status = 200,
        body = Json (JObj
          [(''summary'', JStr ''```json\<newline>not json\<newline>``` and ```\<newline>{}\<newline>```''),
           (''todos'', JArr [JObj [(''id'', JStr ''1''),
                                   (''text'', JStr ''Review email analysis results''),
                                   (''source'', JStr ''Email Agent''),
                                   (''priority'', JStr ''medium'')]]),
           (''insights'', JArr [JObj [(''type'', JStr ''info''),
                                      (''title'', JStr ''Analysis Complete''),
                                      (''description'',
                                       JStr ''Check the summary above for details'')]])])\<rparr>
   \<and> status (analysis_POST parse_literal
      ([Stream_event (Content_block_delta (Some (Text_delta ''Inbox is calm.'')))], Completes))
     = 200"
  using first_candidate_is_parsed_else_fallback
      [of "[]" parse_literal
        "[Stream_event (Content_block_delta (Some (Text_delta ''Here you are:\<newline>```json\<newline>{}''))),
          Stream_event (Content_block_delta (Some (Text_delta ''\<newline>```\<newline>and ```\<newline>[]\<newline>```'')))]"]
    first_candidate_is_parsed_else_fallback
      [of "[]" parse_literal
        "[Stream_event (Content_block_delta (Some (Text_delta ''Plain:\<newline>```\<newline>[]\<newline>```'')))]"]
    first_candidate_is_parsed_else_fallback
      [of "[]" parse_literal "[Stream_event (Content_block_delta (Some (Text_delta ''true'')))]"]
    first_candidate_is_parsed_else_fallback
      [of "[]" parse_literal
        "[Stream_event (Content_block_delta
            (Some (Text_delta ''```json\<newline>not json\<newline>``` and ```\<newline>{}\<newline>```'')))]"]
    first_candidate_is_parsed_else_fallback
      [of "[]" parse_literal
        "[Stream_event (Content_block_delta (Some (Text_delta ''Inbox is calm.'')))]"]
  by (simp add: chosen_text_def candidates_def regex_group_fenced fenced_def text_of_def
        parse_literal_def)


subsection \<open>The email-agent chat route\<close>

lemma count_blocks_total:
  "count_blocks blocks acc = acc\<lparr>toolsCalled := toolsCalled acc + length (filter is_tool_use blocks)\<rparr>"
  by (induction blocks acc rule: count_blocks.induct) simp_all

lemma tally_message_total:
  "tally_message m acc =
     acc\<lparr>collected := collected acc @ delta_text m, toolsCalled := toolsCalled acc + tool_uses m\<rparr>"
  by (induction m acc rule: tally_message.induct) (simp_all add: count_blocks_total)

lemma tally_all_total:
  "tally_all msgs acc =
     acc\<lparr>collected := collected acc @ text_of msgs,
         toolsCalled := toolsCalled acc + sum_list (map tool_uses msgs)\<rparr>"
proof (induction msgs arbitrary: acc)
  case Nil
  show ?case by (simp add: text_of_def)
next
  case (Cons m msgs)
  show ?case by (simp add: Cons.IH tally_message_total text_of_def)
qed

lemma email_chat_POST_ok:
  "status (email_chat_POST rq (msgs, fin) now) = 200 \<Longrightarrow>
   body (email_chat_POST rq (msgs, fin) now) =
     Json (JObj [(''message'', JStr (text_of msgs)),
                 (''toolsUsed'', JNum (int (sum_list (map tool_uses msgs)))),
                 (''timestamp'', JStr now)])"
  by (cases fin)
     (auto simp: email_chat_POST_def Let_def tally_all_total split: sum.splits verdict.splits)

text \<open>
  C9. Whenever the email-agent chat route answers HTTP 200, the body is
  \<open>{message, toolsUsed, timestamp}\<close> with \<open>message\<close> the texts of all upstream text deltas
  concatenated in the order of the upstream and \<open>toolsUsed\<close> the number of \<open>tool_use\<close>
  blocks over all assistant messages; and it answers 200 for every request with a user
  turn whose upstream completes.
\<close>

theorem email_chat_collects_text_and_counts_tools:
  "(status (email_chat_POST rq (msgs, fin) now) = 200 \<longrightarrow>
      body (email_chat_POST rq (msgs, fin) now) =
        Json (JObj [(''message'', JStr (concat (map delta_text msgs))),
                    (''toolsUsed'', JNum (int (sum_list (map tool_uses msgs)))),
                    (''timestamp'', JStr now)]))
   \<and> (list_ex by_user turns \<longrightarrow>
      email_chat_POST (Some (request_of turns)) (msgs, Completes) now =
        \<lparr>status = 200,
         body = Json (JObj [(''message'', JStr (concat (map delta_text msgs))),
                    (''toolsUsed'', JNum (int (sum_list (map tool_uses msgs)))),
                    (''timestamp'', JStr now)]),
         calls = [Query (typed_prompt EMAIL_SYSTEM_PROMPT turns)]\<rparr>)"
proof -
  have "email_chat_POST (Some (request_of turns)) (msgs, Completes) now =
        \<lparr>status = 200,
         body = Json (JObj [(''message'', JStr (text_of msgs)),
                    (''toolsUsed'', JNum (int (sum_list (map tool_uses msgs)))),
                    (''timestamp'', JStr now)]),
         calls = [Query (typed_prompt EMAIL_SYSTEM_PROMPT turns)]\<rparr>"
    if "list_ex by_user turns"
    using that by (simp add: email_chat_POST_def prepare_typed Let_def tally_all_total)
  then show ?thesis
    using email_chat_POST_ok [of rq msgs fin now] by (simp add: text_of_def)
qed

theorem email_chat_collects_text_and_counts_tools_witness:
  "body (email_chat_POST (Some (request_of [Turn User ''Any mail from Ann?'']))
      ([Stream_event (Content_block_delta (Some (Text_delta ''Let me '')))
       , Assistant_message (Some [Other_block, Tool_use ''gmail_search'', Tool_use ''gmail_get_message''])
       , Stream_event (Content_block_delta (Some Other_delta))
       , Stream_event (Content_block_delta (Some (Text_delta ''look.'')))
       , Assistant_message (Some [Tool_use ''gmail_search''])
       , Result ''success''], Completes) ''2026-01-01T00:00:00.000Z'')
     = Json (JObj [(''message'', JStr ''Let me look.''), (''toolsUsed'', JNum 3),
                   (''timestamp'', JStr ''2026-01-01T00:00:00.000Z'')])"
  using email_chat_collects_text_and_counts_tools
      [of "Some (request_of [Turn User ''Any mail from Ann?''])"
          "[Stream_event (Content_block_delta (Some (Text_delta ''Let me '')))
           , Assistant_message (Some [Other_block, Tool_use ''gmail_search'', Tool_use ''gmail_get_message''])
           , Stream_event (Content_block_delta (Some Other_delta))
           , Stream_event (Content_block_delta (Some (Text_delta ''look.'')))
           , Assistant_message (Some [Tool_use ''gmail_search''])
           , Result ''success'']" Completes "''2026-01-01T00:00:00.000Z''"
          "[Turn User ''Any mail from Ann?'']"]
  by simp


subsection \<open>The Gong route\<close>












subsection \<open>The instrumentation facade\<close>

text \<open>
  C8. For every name and every wrapped function, \<open>measureTime\<close> and \<open>startSpan\<close> return
  the value the function returns, or throw the exception it throws, and leave the state
  of the program as the function alone leaves it; what they add is one timing, under
  \<open>function.<name>\<close> or \<open>function.<name>.error\<close>, or one span, in the record of the SDK.
\<close>

theorem facade_is_outcome_transparent:
  "fst (measureTime name fn startTime endTime s) = fst (fn s)
   \<and> fst (snd (measureTime name fn startTime endTime s)) = fst (snd (fn s))
   \<and> snd (snd (measureTime name fn startTime endTime s)) =
       trackTiming (case fst (fn s) of
                      Inr result \<Rightarrow> ''function.'' @ name
                    | Inl error \<Rightarrow> ''function.'' @ name @ ''.error'')
         (endTime - startTime) ''millisecond'' (snd (snd (fn s)))
   \<and> fst (startSpan name fn op s) = fst (fn s)
   \<and> fst (snd (startSpan name fn op s)) = fst (snd (fn s))
   \<and> snd (snd (startSpan name fn op s)) =
       (snd (snd (fn s)))\<lparr>spans := spans (snd (snd (fn s))) @ [(name, op)]\<rparr>"
proof -
  obtain outcome w sdk where r: "fn s = (outcome, w, sdk)"
    by (cases "fn s")
  show ?thesis
    by (cases outcome) (simp_all add: measureTime_def startSpan_def Sentry_startSpan_def r)
qed

theorem facade_is_outcome_transparent_witness:
  "fst (measureTime ''sync'' (\<lambda>(w, sdk). (Inr (w + 1) :: string + nat, w + 1, sdk)) 10 25
          (41 :: nat, \<lparr>distributions = [], spans = []\<rparr>)) = Inr 42
   \<and> snd (measureTime ''sync'' (\<lambda>(w, sdk). (Inr (w + 1) :: string + nat, w + 1, sdk)) 10 25
          (41 :: nat, \<lparr>distributions = [], spans = []\<rparr>))
       = (42, \<lparr>distributions = [(''function.sync'', 15, ''millisecond'')], spans = []\<rparr>)
   \<and> fst (startSpan ''sync'' (\<lambda>(w, sdk). (Inr (w + 1) :: string + nat, w + 1, sdk)) ''function''
          (41 :: nat, \<lparr>distributions = [], spans = []\<rparr>)) = Inr 42
   \<and> measureTime ''sync'' (\<lambda>(w, sdk). (Inl ''boom'' :: string + nat, w, sdk)) 10 25
          (41 :: nat, \<lparr>distributions = [], spans = []\<rparr>)
       = (Inl ''boom'', 41, \<lparr>distributions = [(''function.sync.error'', 15, ''millisecond'')],
                               spans = []\<rparr>)
   \<and> startSpan ''sync'' (\<lambda>(w, sdk). (Inl ''boom'' :: string + nat, w, sdk)) ''function''
          (41 :: nat, \<lparr>distributions = [], spans = []\<rparr>)
       = (Inl ''boom'', 41, \<lparr>distributions = [], spans = [(''sync'', ''function'')]\<rparr>)"
  using facade_is_outcome_transparent
      [of "''sync''" "\<lambda>(w, sdk). (Inr (w + 1) :: string + nat, w + 1, sdk)" 10 25
          "(41 :: nat, \<lparr>distributions = [], spans = []\<rparr>)" "''function''"]
    facade_is_outcome_transparent
      [of "''sync''" "\<lambda>(w, sdk). (Inl ''boom'' :: string + nat, w, sdk)" 10 25
          "(41 :: nat, \<lparr>distributions = [], spans = []\<rparr>)" "''function''"]
  by (simp add: prod_eq_iff trackTiming_def Sentry_metrics_distribution_def)

end
